theory Spec2Isabelle
  imports Complex_Main
begin

section \<open>Common conventions\<close>

text \<open>
  The simulation core of the action games is embedded function by function.
  Python floats and the components of \<^verbatim>\<open>pygame.Vector2\<close> are read as exact
  reals; Python ints are \<^typ>\<open>int\<close>. Drawing, sound and fonts are left out.

  Objects are mutated in place, and an exception leaves the mutations made
  before it. A call therefore yields an \<open>outcome\<close>: the object after a normal
  return, or the exception together with the object as it stands at the raise.
\<close>

datatype error = ValueError | IndexError

datatype 'a outcome = Returned 'a | Raised error 'a

fun obj :: "'a outcome \<Rightarrow> 'a" where
  "obj (Returned a) = a"
| "obj (Raised e a) = a"

fun raises :: "'a outcome \<Rightarrow> bool" where
  "raises (Returned a) = False"
| "raises (Raised e a) = True"

type_synonym vec = "real \<times> real"

definition vadd :: "vec \<Rightarrow> vec \<Rightarrow> vec" where
  "vadd a b = (fst a + fst b, snd a + snd b)"

definition vsub :: "vec \<Rightarrow> vec \<Rightarrow> vec" where
  "vsub a b = (fst a - fst b, snd a - snd b)"

definition smul :: "vec \<Rightarrow> real \<Rightarrow> vec" where
  "smul a k = (fst a * k, snd a * k)"

definition length_squared :: "vec \<Rightarrow> real" where
  "length_squared a = fst a * fst a + snd a * snd a"

definition vlength :: "vec \<Rightarrow> real" where
  "vlength a = sqrt (length_squared a)"

text \<open>\<^verbatim>\<open>Vector2.normalize()\<close> raises ValueError on a vector of length zero.\<close>

definition normalize :: "vec \<Rightarrow> error + vec" where
  "normalize a =
     (if vlength a = 0 then Inl ValueError
      else Inr (fst a / vlength a, snd a / vlength a))"

text \<open>\<^verbatim>\<open>Vector2.rotate(angle)\<close>: counter-clockwise rotation by degrees.\<close>

definition radians :: "real \<Rightarrow> real" where
  "radians d = d * pi / 180"

definition vrotate :: "vec \<Rightarrow> real \<Rightarrow> vec" where
  "vrotate a d =
     (fst a * cos (radians d) - snd a * sin (radians d),
      fst a * sin (radians d) + snd a * cos (radians d))"

text \<open>\<^verbatim>\<open>def clamp(v, a, b): return max(a, min(b, v))\<close> (game.py, game2mod.py, game3.py).\<close>

definition clamp :: "real \<Rightarrow> real \<Rightarrow> real \<Rightarrow> real" where
  "clamp v a b = max a (min b v)"

subsection \<open>The random module\<close>

text \<open>
  The generator is a pair of streams of raw outputs, one for the integer
  primitive (\<^verbatim>\<open>randbelow\<close>) and one for \<^verbatim>\<open>random()\<close>, with the count of calls
  made so far. A seed is any such pair, so a statement for every \<open>rng\<close> is a
  statement for every seed. \<^verbatim>\<open>randint(a, b)\<close> is \<open>a + randbelow(b - a + 1)\<close>,
  \<^verbatim>\<open>choice(xs)\<close> is \<open>xs[randbelow(len(xs))]\<close> and \<^verbatim>\<open>uniform(a, b)\<close> is
  \<open>a + (b - a) * random()\<close>.
\<close>

record rng =
  rng_ints :: "nat \<Rightarrow> nat"
  rng_reals :: "nat \<Rightarrow> real"
  rng_used :: nat

definition rng_next :: "rng \<Rightarrow> rng" where
  "rng_next g = g\<lparr>rng_used := rng_used g + 1\<rparr>"

definition randbelow :: "rng \<Rightarrow> nat \<Rightarrow> nat \<times> rng" where
  "randbelow g n = (rng_ints g (rng_used g) mod n, rng_next g)"

definition randint :: "rng \<Rightarrow> int \<Rightarrow> int \<Rightarrow> int \<times> rng" where
  "randint g a b = (case randbelow g (nat (b - a + 1)) of (k, g') \<Rightarrow> (a + int k, g'))"

definition choice :: "rng \<Rightarrow> 'a list \<Rightarrow> 'a \<times> rng" where
  "choice g xs = (case randbelow g (length xs) of (k, g') \<Rightarrow> (xs ! k, g'))"

definition random :: "rng \<Rightarrow> real \<times> rng" where
  "random g = (rng_reals g (rng_used g), rng_next g)"

definition uniform :: "rng \<Rightarrow> real \<Rightarrow> real \<Rightarrow> real \<times> rng" where
  "uniform g a b = (case random g of (u, g') \<Rightarrow> (a + (b - a) * u, g'))"

subsection \<open>Keys\<close>

datatype key = K_w | K_UP | K_s | K_DOWN | K_a | K_LEFT | K_d | K_RIGHT
  | K_LSHIFT | K_ESCAPE | K_SPACE | K_r | K_other

type_synonym keys = "key \<Rightarrow> bool"

type_synonym color = "nat \<times> nat \<times> nat"

section \<open>game.py: the top-down shooter\<close>

definition PLAYER_SPEED :: real where "PLAYER_SPEED = 320"
definition BULLET_SPEED :: real where "BULLET_SPEED = 900"
definition ENEMY_SPEED :: real where "ENEMY_SPEED = 140"
definition RED :: color where "RED = (220, 60, 60)"
definition YELLOW :: color where "YELLOW = (240, 220, 100)"

subsection \<open>Particle and Bullet\<close>

record Particle =
  pt_pos :: vec
  pt_vel :: vec
  pt_life :: real
  pt_max_life :: real
  pt_size :: real
  pt_color :: color

definition Particle_init :: "vec \<Rightarrow> vec \<Rightarrow> real \<Rightarrow> real \<Rightarrow> color \<Rightarrow> Particle" where
  "Particle_init p v l s c =
     \<lparr>pt_pos = p, pt_vel = v, pt_life = l, pt_max_life = l, pt_size = s, pt_color = c\<rparr>"

definition Particle_update :: "Particle \<Rightarrow> real \<Rightarrow> Particle" where
  "Particle_update p dt =
     (let p1 = p\<lparr>pt_life := pt_life p - dt\<rparr>;
          p2 = p1\<lparr>pt_pos := vadd (pt_pos p1) (smul (pt_vel p1) dt)\<rparr>
      in p2\<lparr>pt_vel := smul (pt_vel p2) 0.98\<rparr>)"

record Bullet =
  b_pos :: vec
  b_vel :: vec
  b_life :: real
  b_radius :: real

text \<open>The owner of a bullet is always the one player of game.py; it is never read.\<close>

definition Bullet_init :: "vec \<Rightarrow> vec \<Rightarrow> Bullet" where
  "Bullet_init p v = \<lparr>b_pos = p, b_vel = v, b_life = 2.2, b_radius = 4\<rparr>"

definition Bullet_update :: "Bullet \<Rightarrow> real \<Rightarrow> Bullet" where
  "Bullet_update b dt =
     (let b1 = b\<lparr>b_life := b_life b - dt\<rparr>
      in b1\<lparr>b_pos := vadd (b_pos b1) (smul (b_vel b1) dt)\<rparr>)"

subsection \<open>Player\<close>

record Player =
  pl_pos :: vec
  pl_vel :: vec
  pl_speed :: real
  pl_health :: real
  pl_max_health :: real
  pl_radius :: real
  pl_reload :: real
  pl_fire_rate :: real
  pl_dash_timer :: real
  pl_score :: int
  pl_upgrades :: "string \<rightharpoonup> real"

definition Player_init :: "vec \<Rightarrow> Player" where
  "Player_init p =
     \<lparr>pl_pos = p, pl_vel = (0, 0), pl_speed = PLAYER_SPEED, pl_health = 100,
      pl_max_health = 100, pl_radius = 18, pl_reload = 0, pl_fire_rate = 0.12,
      pl_dash_timer = 0, pl_score = 0,
      pl_upgrades = [''damage'' \<mapsto> 1.0, ''firerate'' \<mapsto> 1.0]\<rparr>"

text \<open>\<^verbatim>\<open>dict.get(key, default)\<close>.\<close>

definition dict_get :: "('k \<rightharpoonup> 'v) \<Rightarrow> 'k \<Rightarrow> 'v \<Rightarrow> 'v" where
  "dict_get m k d = (case m k of None \<Rightarrow> d | Some v \<Rightarrow> v)"

text \<open>The first lines of \<^verbatim>\<open>Player.update\<close>: the move vector read from the keys.\<close>

definition key_move :: "keys \<Rightarrow> vec" where
  "key_move ks =
     (let m0 = (0, 0);
          m1 = (if ks K_w \<or> ks K_UP then (fst m0, snd m0 - 1) else m0);
          m2 = (if ks K_s \<or> ks K_DOWN then (fst m1, snd m1 + 1) else m1);
          m3 = (if ks K_a \<or> ks K_LEFT then (fst m2 - 1, snd m2) else m2)
      in (if ks K_d \<or> ks K_RIGHT then (fst m3 + 1, snd m3) else m3))"

definition Player_update :: "Player \<Rightarrow> real \<Rightarrow> keys \<Rightarrow> Player outcome" where
  "Player_update p dt ks =
     (let move0 = key_move ks
      in case (if length_squared move0 > 0 then normalize move0 else Inr move0) of
           Inl e \<Rightarrow> Raised e p
         | Inr move \<Rightarrow>
             (let target_speed0 = pl_speed p;
                  target_speed = (if ks K_LSHIFT then target_speed0 * 1.6 else target_speed0);
                  p1 = (if ks K_LSHIFT then p\<lparr>pl_dash_timer := 0.12\<rparr> else p);
                  p2 = p1\<lparr>pl_vel := vadd (pl_vel p1)
                          (smul (vsub (smul move target_speed) (pl_vel p1)) (clamp (12 * dt) 0 1))\<rparr>;
                  p3 = p2\<lparr>pl_pos := vadd (pl_pos p2) (smul (pl_vel p2) dt)\<rparr>;
                  p4 = p3\<lparr>pl_reload :=
                          max 0 (pl_reload p3 - dt * dict_get (pl_upgrades p3) ''firerate'' 1.0)\<rparr>
              in Returned (if pl_dash_timer p4 > 0
                           then p4\<lparr>pl_dash_timer := pl_dash_timer p4 - dt\<rparr> else p4)))"

text \<open>
  \<^verbatim>\<open>Player.shoot(target, bullets, particles)\<close>. The loop over \<^verbatim>\<open>range(8)\<close>
  is \<open>muzzle_loop\<close>; each particle draws its rotation, speed, life and size.
\<close>

fun muzzle_loop :: "nat \<Rightarrow> Player \<Rightarrow> vec \<Rightarrow> Particle list \<Rightarrow> rng \<Rightarrow> Particle list \<times> rng" where
  "muzzle_loop 0 p dir_rot particles g = (particles, g)"
| "muzzle_loop (Suc n) p dir_rot particles g =
     (case uniform g (- 40) 40 of (ang, g1) \<Rightarrow>
      case uniform g1 80 420 of (spd, g2) \<Rightarrow>
      case uniform g2 0.25 0.6 of (life, g3) \<Rightarrow>
      case uniform g3 2 5 of (sz, g4) \<Rightarrow>
        muzzle_loop n p dir_rot
          (particles @ [Particle_init (vadd (pl_pos p) (smul dir_rot (pl_radius p + 6)))
                          (smul (vrotate dir_rot ang) spd) life sz YELLOW]) g4)"

definition Player_shoot ::
  "Player \<Rightarrow> vec \<Rightarrow> Bullet list \<Rightarrow> Particle list \<Rightarrow> rng
     \<Rightarrow> (Player \<times> Bullet list \<times> Particle list \<times> rng) outcome" where
  "Player_shoot p target bullets particles g =
     (if pl_reload p > 0 then Returned (p, bullets, particles, g)
      else
        let direction0 = vsub target (pl_pos p);
            direction1 = (if length_squared direction0 = 0 then (1, 0) else direction0)
        in case normalize direction1 of
             Inl e \<Rightarrow> Raised e (p, bullets, particles, g)
           | Inr direction \<Rightarrow>
               (case uniform g (- 6) 6 of (spread, g1) \<Rightarrow>
                let rad = radians spread;
                    dir_rot = (fst direction * cos rad - snd direction * sin rad,
                               fst direction * sin rad + snd direction * cos rad);
                    bullets1 = bullets @
                      [Bullet_init (vadd (pl_pos p) (smul dir_rot (pl_radius p + 6)))
                         (smul dir_rot BULLET_SPEED)];
                    p1 = p\<lparr>pl_reload := pl_fire_rate p\<rparr>
                in case muzzle_loop 8 p1 dir_rot particles g1 of
                     (particles1, g2) \<Rightarrow> Returned (p1, bullets1, particles1, g2)))"

subsection \<open>Enemy\<close>

record Enemy =
  en_pos :: vec
  en_vel :: vec
  en_kind :: int
  en_radius :: real
  en_health :: real
  en_max_health :: real
  en_state :: string
  en_wander_dir :: vec
  en_change_timer :: real

text \<open>The last two lines of \<^verbatim>\<open>Enemy.update\<close>: smoothing towards \<open>desired\<close>.\<close>

definition Enemy_steer :: "Enemy \<Rightarrow> real \<Rightarrow> vec \<Rightarrow> Enemy" where
  "Enemy_steer e dt desired =
     (let e1 = e\<lparr>en_vel := vadd (en_vel e)
                    (smul (vsub desired (en_vel e)) (clamp (6 * dt) 0 1))\<rparr>
      in e1\<lparr>en_pos := vadd (en_pos e1) (smul (en_vel e1) dt)\<rparr>)"

text \<open>The re-roll of the wander direction in the patrol branch.\<close>

definition Enemy_reroll :: "Enemy \<Rightarrow> rng \<Rightarrow> (Enemy \<times> rng) outcome" where
  "Enemy_reroll e g =
     (case uniform g (- 1) 1 of (u1, g1) \<Rightarrow>
      case uniform g1 (- 1) 1 of (u2, g2) \<Rightarrow>
        let e1 = e\<lparr>en_wander_dir := (u1, u2)\<rparr>
        in case (if length_squared (en_wander_dir e1) > 0
                 then normalize (en_wander_dir e1) else Inr (en_wander_dir e1)) of
             Inl err \<Rightarrow> Raised err (e1, g2)
           | Inr w \<Rightarrow>
               (case uniform g2 1.0 3.0 of (u3, g3) \<Rightarrow>
                  Returned (e1\<lparr>en_wander_dir := w, en_change_timer := u3\<rparr>, g3)))"

text \<open>\<^verbatim>\<open>Enemy.update(dt, player_pos)\<close>.\<close>

definition Enemy_update :: "Enemy \<Rightarrow> real \<Rightarrow> vec \<Rightarrow> rng \<Rightarrow> (Enemy \<times> rng) outcome" where
  "Enemy_update e dt player_pos g =
     (let dist = vlength (vsub player_pos (en_pos e));
          e1 = (if dist < 260 then e\<lparr>en_state := ''chase''\<rparr>
                else if dist > 360 then e\<lparr>en_state := ''patrol''\<rparr>
                else e)
      in if en_state e1 = ''chase'' then
           (case normalize (vsub player_pos (en_pos e1)) of
              Inl err \<Rightarrow> Raised err (e1, g)
            | Inr d \<Rightarrow> Returned (Enemy_steer e1 dt (smul d ENEMY_SPEED), g))
         else
           (let e2 = e1\<lparr>en_change_timer := en_change_timer e1 - dt\<rparr>
            in case (if en_change_timer e2 \<le> 0 then Enemy_reroll e2 g else Returned (e2, g)) of
                 Raised err s \<Rightarrow> Raised err s
               | Returned (e3, g3) \<Rightarrow>
                   Returned (Enemy_steer e3 dt (smul (en_wander_dir e3) (ENEMY_SPEED * 0.6)), g3)))"

subsection \<open>Bullets against enemies\<close>

text \<open>
  The collision loop of \<^verbatim>\<open>Game.update\<close> for one enemy: a fresh copy
  of the bullets is scanned, and each bullet in range takes \<open>20 * damage\<close> from
  the enemy and is removed from the list.
\<close>

fun bullet_hits ::
  "real \<Rightarrow> Bullet list \<Rightarrow> Enemy \<Rightarrow> Bullet list \<Rightarrow> Enemy \<times> Bullet list" where
  "bullet_hits dmg [] e bullets = (e, bullets)"
| "bullet_hits dmg (b # copy) e bullets =
     (if vlength (vsub (b_pos b) (en_pos e)) < en_radius e + b_radius b
      then bullet_hits dmg copy (e\<lparr>en_health := en_health e - 20 * dmg\<rparr>) (remove1 b bullets)
      else bullet_hits dmg copy e bullets)"

text \<open>An enemy on patrol at the origin, for the examples.\<close>

definition sample_enemy :: Enemy where
  "sample_enemy = \<lparr>en_pos = (0, 0), en_vel = (0, 0), en_kind = 0, en_radius = 14, en_health = 30,
     en_max_health = 30, en_state = ''patrol'', en_wander_dir = (1, 0), en_change_timer = 2\<rparr>"

section \<open>game2.py: the endless runner\<close>

definition GRAVITY :: real where "GRAVITY = 2200"
definition PLAYER_RUN_SPEED :: real where "PLAYER_RUN_SPEED = 320"
definition JUMP_V :: real where "JUMP_V = - 740"
definition DASH_SPEED :: real where "DASH_SPEED = 700"
definition DASH_TIME :: real where "DASH_TIME = 0.18"
definition MAX_DOUBLE_JUMP :: int where "MAX_DOUBLE_JUMP = 1"
definition NEON :: color where "NEON = (80, 200, 255)"

text \<open>
  \<^verbatim>\<open>Particle\<close> of game2.py is the class of game.py word for word, and its
  \<^verbatim>\<open>clamp(a, b, c) = max(b, min(c, a))\<close> is \<open>clamp\<close> above.
\<close>

subsection \<open>Player\<close>

record RPlayer =
  rp_pos :: vec
  rp_vel :: vec
  rp_on_ground :: bool
  rp_double_jumps :: int
  rp_width :: real
  rp_height :: real
  rp_color :: color
  rp_dashing :: bool
  rp_dash_timer :: real
  rp_stamina :: real
  rp_score :: int
  rp_combo :: int

definition RPlayer_init :: "vec \<Rightarrow> RPlayer" where
  "RPlayer_init p =
     \<lparr>rp_pos = p, rp_vel = (0, 0), rp_on_ground = False, rp_double_jumps = MAX_DOUBLE_JUMP,
      rp_width = 44, rp_height = 56, rp_color = NEON, rp_dashing = False, rp_dash_timer = 0,
      rp_stamina = 1.0, rp_score = 0, rp_combo = 0\<rparr>"

text \<open>\<^verbatim>\<open>Player.jump()\<close>: the returned flag and the player after the call.\<close>

definition RPlayer_jump :: "RPlayer \<Rightarrow> bool \<times> RPlayer" where
  "RPlayer_jump p =
     (if rp_on_ground p then
        (True, p\<lparr>rp_vel := (fst (rp_vel p), JUMP_V), rp_on_ground := False,
                 rp_double_jumps := MAX_DOUBLE_JUMP\<rparr>)
      else if rp_double_jumps p > 0 then
        (True, p\<lparr>rp_vel := (fst (rp_vel p), JUMP_V * 0.9),
                 rp_double_jumps := rp_double_jumps p - 1\<rparr>)
      else (False, p))"

definition RPlayer_start_dash :: "RPlayer \<Rightarrow> bool \<times> RPlayer" where
  "RPlayer_start_dash p =
     (if rp_stamina p > 0.15 \<and> \<not> rp_dashing p then
        (True, p\<lparr>rp_dashing := True, rp_dash_timer := DASH_TIME,
                 rp_stamina := rp_stamina p - 0.35\<rparr>)
      else (False, p))"

definition RPlayer_update :: "RPlayer \<Rightarrow> real \<Rightarrow> RPlayer" where
  "RPlayer_update p dt =
     (let p1 = (if \<not> rp_on_ground p
                then p\<lparr>rp_vel := (fst (rp_vel p), snd (rp_vel p) + GRAVITY * dt)\<rparr> else p);
          p2 = (if rp_dashing p1 then
                  (let q1 = p1\<lparr>rp_dash_timer := rp_dash_timer p1 - dt\<rparr>;
                       q2 = q1\<lparr>rp_vel := (DASH_SPEED, snd (rp_vel q1))\<rparr>
                   in if rp_dash_timer q2 \<le> 0 then q2\<lparr>rp_dashing := False\<rparr> else q2)
                else
                  (let q1 = p1\<lparr>rp_vel := (PLAYER_RUN_SPEED, snd (rp_vel p1))\<rparr>
                   in q1\<lparr>rp_stamina := clamp (rp_stamina q1 + dt * 0.25) 0.0 1.0\<rparr>))
      in p2\<lparr>rp_pos := vadd (rp_pos p2) (smul (rp_vel p2) dt)\<rparr>)"

subsection \<open>Landing on platforms\<close>

text \<open>
  \<^verbatim>\<open>pygame.Rect\<close> is not code of the repository: its constructor, \<^verbatim>\<open>colliderect\<close>
  and the attributes \<^verbatim>\<open>top\<close> and \<^verbatim>\<open>bottom\<close> are parameters, and every statement
  below holds for all of them.
\<close>

record 'r pygame =
  Rect :: "real \<Rightarrow> real \<Rightarrow> real \<Rightarrow> real \<Rightarrow> 'r"
  colliderect :: "'r \<Rightarrow> 'r \<Rightarrow> bool"
  rect_top :: "'r \<Rightarrow> real"
  rect_bottom :: "'r \<Rightarrow> real"

record Platform =
  pf_x :: real
  pf_y :: real
  pf_w :: real
  pf_h :: real

definition Platform_rect :: "'r pygame \<Rightarrow> Platform \<Rightarrow> 'r" where
  "Platform_rect R p = Rect R (pf_x p) (pf_y p) (pf_w p) (pf_h p)"

definition RPlayer_rect :: "'r pygame \<Rightarrow> RPlayer \<Rightarrow> 'r" where
  "RPlayer_rect R p =
     Rect R (fst (rp_pos p) - rp_width p / 2) (snd (rp_pos p) - rp_height p)
       (rp_width p) (rp_height p)"

text \<open>The body of the loop over \<^verbatim>\<open>self.level.platforms\<close> in \<^verbatim>\<open>Game.update\<close>.\<close>

definition land_on :: "'r pygame \<Rightarrow> real \<Rightarrow> 'r \<Rightarrow> Platform \<Rightarrow> RPlayer \<Rightarrow> RPlayer" where
  "land_on R dt pr p pl =
     (let r = Platform_rect R p
      in if colliderect R pr r then
           (if snd (rp_vel pl) > 0 \<and> rect_bottom R pr - snd (rp_vel pl) * dt \<le> rect_top R r + 6
            then pl\<lparr>rp_pos := (fst (rp_pos pl), rect_top R r), rp_vel := (fst (rp_vel pl), 0),
                    rp_on_ground := True, rp_double_jumps := MAX_DOUBLE_JUMP\<rparr>
            else pl)
         else pl)"

text \<open>
  The part of \<^verbatim>\<open>Game.update\<close> that touches the player's jump state: the player's
  own update, then \<^verbatim>\<open>on_ground = False\<close> and the platform loop. The argument
  \<open>platforms\<close> is \<^verbatim>\<open>self.level.platforms\<close> as the level generator and the cleanup
  of this tick leave it; obstacles, orbs and particles do not touch the fields
  modelled here apart from score and combo.
\<close>

definition platform_collisions :: "'r pygame \<Rightarrow> real \<Rightarrow> Platform list \<Rightarrow> RPlayer \<Rightarrow> RPlayer" where
  "platform_collisions R dt platforms pl =
     (let pl1 = pl\<lparr>rp_on_ground := False\<rparr>;
          pr = RPlayer_rect R pl1
      in fold (land_on R dt pr) platforms pl1)"

definition runner_tick :: "'r pygame \<Rightarrow> real \<Rightarrow> Platform list \<Rightarrow> RPlayer \<Rightarrow> RPlayer" where
  "runner_tick R dt platforms pl = platform_collisions R dt platforms (RPlayer_update pl dt)"

text \<open>
  What happens to the player between frames: a jump key (\<^verbatim>\<open>handle_input\<close> calls
  \<^verbatim>\<open>jump\<close>) or a tick of \<^verbatim>\<open>Game.update\<close>.
\<close>

datatype revent = JumpKey | Tick real "Platform list"

fun runner_step :: "'r pygame \<Rightarrow> RPlayer \<Rightarrow> revent \<Rightarrow> RPlayer" where
  "runner_step R pl JumpKey = snd (RPlayer_jump pl)"
| "runner_step R pl (Tick dt platforms) = runner_tick R dt platforms pl"

fun runner_run :: "'r pygame \<Rightarrow> RPlayer \<Rightarrow> revent list \<Rightarrow> RPlayer" where
  "runner_run R pl [] = pl"
| "runner_run R pl (e # es) = runner_run R (runner_step R pl e) es"

text \<open>
  The number of jumps that succeed in a run of events, counted up to the first
  tick that ends on the ground.
\<close>

fun jumps_until_contact :: "'r pygame \<Rightarrow> RPlayer \<Rightarrow> revent list \<Rightarrow> nat" where
  "jumps_until_contact R pl [] = 0"
| "jumps_until_contact R pl (JumpKey # es) =
     (if fst (RPlayer_jump pl) then 1 else 0) + jumps_until_contact R (snd (RPlayer_jump pl)) es"
| "jumps_until_contact R pl (Tick dt platforms # es) =
     (let pl' = runner_tick R dt platforms pl
      in if rp_on_ground pl' then 0 else jumps_until_contact R pl' es)"

section \<open>game2mod.py: the arena shooter\<close>

definition SCREEN_SIZE_arena :: "int \<times> int" where "SCREEN_SIZE_arena = (1000, 700)"
definition PLAYER_SPEED_arena :: real where "PLAYER_SPEED_arena = 280"
definition PLAYER_MAX_HEALTH :: real where "PLAYER_MAX_HEALTH = 100"
definition PLAYER_AMMO :: int where "PLAYER_AMMO = 30"
definition RELOAD_TIME :: real where "RELOAD_TIME = 1.5"
definition BULLET_SPEED_arena :: real where "BULLET_SPEED_arena = 700"
definition WAVE_INTERVAL :: real where "WAVE_INTERVAL = 3.0"
definition PINK :: color where "PINK = (255, 80, 180)"

subsection \<open>Particle, Bullet, Player, Enemy\<close>

text \<open>
  \<^verbatim>\<open>Particle\<close> has the fields of game.py's class; its update damps the velocity
  by 0.96.
\<close>

definition Particle_update_arena :: "Particle \<Rightarrow> real \<Rightarrow> Particle" where
  "Particle_update_arena p dt =
     (let p1 = p\<lparr>pt_life := pt_life p - dt\<rparr>;
          p2 = p1\<lparr>pt_pos := vadd (pt_pos p1) (smul (pt_vel p1) dt)\<rparr>
      in p2\<lparr>pt_vel := smul (pt_vel p2) 0.96\<rparr>)"

record ABullet =
  ab_pos :: vec
  ab_vel :: vec
  ab_life :: real

text \<open>\<^verbatim>\<open>Bullet(pos, dir)\<close> normalizes \<open>dir\<close> and raises when it is the zero vector.\<close>

definition ABullet_init :: "vec \<Rightarrow> vec \<Rightarrow> error + ABullet" where
  "ABullet_init p dir =
     (case normalize dir of
        Inl e \<Rightarrow> Inl e
      | Inr d \<Rightarrow> Inr \<lparr>ab_pos = p, ab_vel = smul d BULLET_SPEED_arena, ab_life = 1.2\<rparr>)"

definition ABullet_update :: "ABullet \<Rightarrow> real \<Rightarrow> ABullet" where
  "ABullet_update b dt =
     (let b1 = b\<lparr>ab_pos := vadd (ab_pos b) (smul (ab_vel b) dt)\<rparr>
      in b1\<lparr>ab_life := ab_life b1 - dt\<rparr>)"

record APlayer =
  ap_pos :: vec
  ap_health :: real
  ap_ammo :: int
  ap_reloading :: bool
  ap_reload_timer :: real
  ap_score :: int

definition APlayer_init :: "vec \<Rightarrow> APlayer" where
  "APlayer_init p =
     \<lparr>ap_pos = p, ap_health = PLAYER_MAX_HEALTH, ap_ammo = PLAYER_AMMO, ap_reloading = False,
      ap_reload_timer = 0, ap_score = 0\<rparr>"

definition key_move_arena :: "keys \<Rightarrow> vec" where
  "key_move_arena ks =
     (let m0 = (0, 0);
          m1 = (if ks K_w then (fst m0, snd m0 - 1) else m0);
          m2 = (if ks K_s then (fst m1, snd m1 + 1) else m1);
          m3 = (if ks K_a then (fst m2 - 1, snd m2) else m2)
      in (if ks K_d then (fst m3 + 1, snd m3) else m3))"

definition APlayer_update :: "APlayer \<Rightarrow> real \<Rightarrow> keys \<Rightarrow> APlayer outcome" where
  "APlayer_update p dt ks =
     (let move0 = key_move_arena ks
      in case (if length_squared move0 > 0 then normalize move0 else Inr move0) of
           Inl e \<Rightarrow> Raised e p
         | Inr move \<Rightarrow>
             (let p1 = p\<lparr>ap_pos := vadd (ap_pos p) (smul (smul move PLAYER_SPEED_arena) dt)\<rparr>
              in Returned
                   (if ap_reloading p1 then
                      (let p2 = p1\<lparr>ap_reload_timer := ap_reload_timer p1 - dt\<rparr>
                       in if ap_reload_timer p2 \<le> 0
                          then p2\<lparr>ap_reloading := False, ap_ammo := PLAYER_AMMO\<rparr> else p2)
                    else p1)))"

record AEnemy =
  ae_pos :: vec
  ae_etype :: string
  ae_health :: real
  ae_speed :: real

definition AEnemy_init :: "vec \<Rightarrow> string \<Rightarrow> AEnemy" where
  "AEnemy_init p etype =
     (if etype = ''fast'' then \<lparr>ae_pos = p, ae_etype = etype, ae_health = 20, ae_speed = 200\<rparr>
      else if etype = ''tank'' then \<lparr>ae_pos = p, ae_etype = etype, ae_health = 100, ae_speed = 80\<rparr>
      else if etype = ''boss'' then \<lparr>ae_pos = p, ae_etype = etype, ae_health = 500, ae_speed = 100\<rparr>
      else \<lparr>ae_pos = p, ae_etype = etype, ae_health = 30, ae_speed = 120\<rparr>)"

definition AEnemy_update :: "AEnemy \<Rightarrow> real \<Rightarrow> APlayer \<Rightarrow> AEnemy outcome" where
  "AEnemy_update e dt player =
     (let dir0 = vsub (ap_pos player) (ae_pos e)
      in case (if length_squared dir0 > 0 then normalize dir0 else Inr dir0) of
           Inl err \<Rightarrow> Raised err e
         | Inr dir \<Rightarrow> Returned (e\<lparr>ae_pos := vadd (ae_pos e) (smul (smul dir (ae_speed e)) dt)\<rparr>))"

subsection \<open>Game\<close>

record AGame =
  ag_player :: APlayer
  ag_bullets :: "ABullet list"
  ag_enemies :: "AEnemy list"
  ag_particles :: "Particle list"
  ag_running :: bool
  ag_state :: string
  ag_spawn_timer :: real
  ag_wave :: int

text \<open>The centre of the screen, \<^verbatim>\<open>(SCREEN_SIZE[0]/2, SCREEN_SIZE[1]/2)\<close>.\<close>

definition arena_centre :: vec where
  "arena_centre = (real_of_int (fst SCREEN_SIZE_arena) / 2, real_of_int (snd SCREEN_SIZE_arena) / 2)"

definition AGame_init :: AGame where
  "AGame_init =
     \<lparr>ag_player = APlayer_init arena_centre,
      ag_bullets = [], ag_enemies = [], ag_particles = [], ag_running = True,
      ag_state = ''menu'', ag_spawn_timer = 0, ag_wave = 1\<rparr>"

text \<open>
  \<^verbatim>\<open>Game.spawn_wave()\<close>. \<open>spawn_one\<close> is the body of the loop over
  \<^verbatim>\<open>range(self.wave*2)\<close>, \<open>spawn_loop n\<close> its \<open>n\<close> iterations.
\<close>

definition spawn_one :: "AEnemy list \<Rightarrow> rng \<Rightarrow> AEnemy list \<times> rng" where
  "spawn_one enemies g =
     (case choice g [''top'', ''bottom'', ''left'', ''right''] of (side, g1) \<Rightarrow>
      case (if side = ''top'' then
              (case randint g1 0 (fst SCREEN_SIZE_arena) of (x, g2) \<Rightarrow> ((real_of_int x, - 40), g2))
            else if side = ''bottom'' then
              (case randint g1 0 (fst SCREEN_SIZE_arena) of (x, g2) \<Rightarrow>
                 ((real_of_int x, real_of_int (snd SCREEN_SIZE_arena + 40)), g2))
            else if side = ''left'' then
              (case randint g1 0 (snd SCREEN_SIZE_arena) of (y, g2) \<Rightarrow> ((- 40, real_of_int y), g2))
            else
              (case randint g1 0 (snd SCREEN_SIZE_arena) of (y, g2) \<Rightarrow>
                 ((real_of_int (fst SCREEN_SIZE_arena + 40), real_of_int y), g2))) of (pos, g2) \<Rightarrow>
      case choice g2 [''normal'', ''fast'', ''tank''] of (etype, g3) \<Rightarrow>
        (enemies @ [AEnemy_init pos etype], g3))"

fun spawn_loop :: "nat \<Rightarrow> AEnemy list \<Rightarrow> rng \<Rightarrow> AEnemy list \<times> rng" where
  "spawn_loop 0 enemies g = (enemies, g)"
| "spawn_loop (Suc n) enemies g =
     (case spawn_one enemies g of (enemies1, g1) \<Rightarrow> spawn_loop n enemies1 g1)"

definition spawn_wave :: "AGame \<Rightarrow> rng \<Rightarrow> AGame \<times> rng" where
  "spawn_wave gm g =
     (if ag_wave gm mod 5 = 0 then
        (gm\<lparr>ag_enemies := ag_enemies gm @
               [AEnemy_init (real_of_int (fst SCREEN_SIZE_arena) / 2, - 80) ''boss'']\<rparr>, g)
      else
        (case spawn_loop (nat (ag_wave gm * 2)) (ag_enemies gm) g of
           (enemies1, g1) \<Rightarrow> (gm\<lparr>ag_enemies := enemies1\<rparr>, g1)))"

definition AGame_start :: "AGame \<Rightarrow> rng \<Rightarrow> AGame \<times> rng" where
  "AGame_start gm g =
     (let gm1 = gm\<lparr>ag_player := APlayer_init arena_centre,
                   ag_bullets := [], ag_enemies := [], ag_particles := [], ag_wave := 1\<rparr>
      in case spawn_wave gm1 g of (gm2, g1) \<Rightarrow> (gm2\<lparr>ag_state := ''playing''\<rparr>, g1))"

text \<open>
  \<^verbatim>\<open>Game.handle_input()\<close>. What pygame reports is an argument: the queued events,
  whether the left mouse button is down, and the mouse position.
\<close>

datatype event = QUIT | KEYDOWN key | OTHER_EVENT

definition handle_event :: "AGame \<Rightarrow> rng \<Rightarrow> event \<Rightarrow> AGame \<times> rng" where
  "handle_event gm g ev =
     (case ev of
        QUIT \<Rightarrow> (gm\<lparr>ag_running := False\<rparr>, g)
      | OTHER_EVENT \<Rightarrow> (gm, g)
      | KEYDOWN k \<Rightarrow>
          (let gm1 = (if k = K_ESCAPE then
                        (if ag_state gm = ''playing'' then gm\<lparr>ag_state := ''menu''\<rparr>
                         else gm\<lparr>ag_running := False\<rparr>)
                      else gm)
           in case (if k = K_SPACE then
                      (if ag_state gm1 \<noteq> ''playing'' then AGame_start gm1 g else (gm1, g))
                    else (gm1, g)) of (gm2, g2) \<Rightarrow>
              (if k = K_r then
                 (if ap_reloading (ag_player gm2) = False \<and> ap_ammo (ag_player gm2) < PLAYER_AMMO
                  then (gm2\<lparr>ag_player := (ag_player gm2)\<lparr>ap_reloading := True,
                                             ap_reload_timer := RELOAD_TIME\<rparr>\<rparr>, g2)
                  else (gm2, g2))
               else (gm2, g2))))"

fun handle_events :: "AGame \<Rightarrow> rng \<Rightarrow> event list \<Rightarrow> AGame \<times> rng" where
  "handle_events gm g [] = (gm, g)"
| "handle_events gm g (ev # evs) =
     (case handle_event gm g ev of (gm1, g1) \<Rightarrow> handle_events gm1 g1 evs)"

text \<open>The four muzzle particles of a shot; \<open>dir\<close> is normalized once per particle.\<close>

fun shot_particles :: "nat \<Rightarrow> AGame \<Rightarrow> vec \<Rightarrow> rng \<Rightarrow> (AGame \<times> rng) outcome" where
  "shot_particles 0 gm dir g = Returned (gm, g)"
| "shot_particles (Suc n) gm dir g =
     (case normalize dir of
        Inl e \<Rightarrow> Raised e (gm, g)
      | Inr d \<Rightarrow>
          (case uniform g 60 200 of (u, g1) \<Rightarrow>
             shot_particles n
               (gm\<lparr>ag_particles := ag_particles gm @
                      [Particle_init (ap_pos (ag_player gm)) (smul d (- u)) 0.3 2 NEON]\<rparr>)
               dir g1))"

text \<open>The second half of \<^verbatim>\<open>handle_input\<close>: firing while the button is held.\<close>

definition fire :: "AGame \<Rightarrow> bool \<Rightarrow> vec \<Rightarrow> rng \<Rightarrow> (AGame \<times> rng) outcome" where
  "fire gm mouse_pressed mouse_pos g =
     (if ag_state gm = ''playing'' then
        (if mouse_pressed then
           (if ap_ammo (ag_player gm) > 0 \<and> \<not> ap_reloading (ag_player gm) then
              (let dir = vsub mouse_pos (ap_pos (ag_player gm))
               in case ABullet_init (ap_pos (ag_player gm)) dir of
                    Inl e \<Rightarrow> Raised e (gm, g)
                  | Inr b \<Rightarrow>
                      (let gm1 = gm\<lparr>ag_bullets := ag_bullets gm @ [b]\<rparr>;
                           gm2 = gm1\<lparr>ag_player :=
                                   (ag_player gm1)\<lparr>ap_ammo := ap_ammo (ag_player gm1) - 1\<rparr>\<rparr>
                       in shot_particles 4 gm2 dir g))
            else Returned (gm, g))
         else Returned (gm, g))
      else Returned (gm, g))"

definition handle_input ::
  "AGame \<Rightarrow> event list \<Rightarrow> bool \<Rightarrow> vec \<Rightarrow> rng \<Rightarrow> (AGame \<times> rng) outcome" where
  "handle_input gm events mouse_pressed mouse_pos g =
     (case handle_events gm g events of (gm1, g1) \<Rightarrow> fire gm1 mouse_pressed mouse_pos g1)"

text \<open>
  \<^verbatim>\<open>Game.update()\<close>. The loops run over a copy of the list and remove from the
  list itself; \<open>enemies_loop\<close> walks the copy and collects in \<open>kept\<close> the enemies
  that stay, so that \<^verbatim>\<open>self.enemies\<close> is \<open>kept\<close> followed by the rest of the copy.
\<close>

fun death_particles :: "nat \<Rightarrow> vec \<Rightarrow> Particle list \<Rightarrow> rng \<Rightarrow> Particle list \<times> rng" where
  "death_particles 0 pos particles g = (particles, g)"
| "death_particles (Suc n) pos particles g =
     (case uniform g (- 200) 200 of (vx, g1) \<Rightarrow>
      case uniform g1 (- 200) 200 of (vy, g2) \<Rightarrow>
        death_particles n pos (particles @ [Particle_init pos (vx, vy) 0.5 3 PINK]) g2)"

definition contact_damage :: "AGame \<Rightarrow> AEnemy \<Rightarrow> real \<Rightarrow> AGame" where
  "contact_damage gm e dt =
     (if vlength (vsub (ae_pos e) (ap_pos (ag_player gm))) < 28 then
        (let gm1 = gm\<lparr>ag_player :=
                      (ag_player gm)\<lparr>ap_health := ap_health (ag_player gm) - 20 * dt\<rparr>\<rparr>
         in if ap_health (ag_player gm1) \<le> 0 then gm1\<lparr>ag_state := ''gameover''\<rparr> else gm1)
      else gm)"

fun enemies_loop ::
  "real \<Rightarrow> AEnemy list \<Rightarrow> AEnemy list \<Rightarrow> AGame \<Rightarrow> rng \<Rightarrow> (AGame \<times> rng) outcome" where
  "enemies_loop dt [] kept gm g = Returned (gm\<lparr>ag_enemies := kept\<rparr>, g)"
| "enemies_loop dt (e # rest) kept gm g =
     (case AEnemy_update e dt (ag_player gm) of
        Raised err e1 \<Rightarrow> Raised err (gm\<lparr>ag_enemies := kept @ e1 # rest\<rparr>, g)
      | Returned e1 \<Rightarrow>
          (let gm1 = contact_damage gm e1 dt
           in case find (\<lambda>b. vlength (vsub (ae_pos e1) (ab_pos b)) < 20) (ag_bullets gm1) of
                None \<Rightarrow> enemies_loop dt rest (kept @ [e1]) gm1 g
              | Some b \<Rightarrow>
                  (let e2 = e1\<lparr>ae_health := ae_health e1 - 20\<rparr>
                   in if ae_health e2 \<le> 0 then
                        (let gm2 = gm1\<lparr>ag_player := (ag_player gm1)\<lparr>ap_score :=
                                      ap_score (ag_player gm1)
                                        + (if ae_etype e2 \<noteq> ''boss'' then 10 else 200)\<rparr>\<rparr>
                         in case death_particles 12 (ae_pos e2) (ag_particles gm2) g of
                              (particles1, g1) \<Rightarrow>
                                enemies_loop dt rest kept
                                  (gm2\<lparr>ag_particles := particles1,
                                        ag_bullets := remove1 b (ag_bullets gm2)\<rparr>) g1)
                      else
                        enemies_loop dt rest (kept @ [e2])
                          (gm1\<lparr>ag_bullets := remove1 b (ag_bullets gm1)\<rparr>) g)))"

definition AGame_update :: "AGame \<Rightarrow> real \<Rightarrow> keys \<Rightarrow> rng \<Rightarrow> (AGame \<times> rng) outcome" where
  "AGame_update gm dt ks g =
     (case APlayer_update (ag_player gm) dt ks of
        Raised err p \<Rightarrow> Raised err (gm\<lparr>ag_player := p\<rparr>, g)
      | Returned p \<Rightarrow>
          (let gm1 = gm\<lparr>ag_player := p\<rparr>;
               gm2 = gm1\<lparr>ag_bullets := filter (\<lambda>b. \<not> ab_life b \<le> 0)
                                          (map (\<lambda>b. ABullet_update b dt) (ag_bullets gm1))\<rparr>
           in case enemies_loop dt (ag_enemies gm2) [] gm2 g of
                Raised err s \<Rightarrow> Raised err s
              | Returned (gm3, g3) \<Rightarrow>
                  (let gm4 = gm3\<lparr>ag_particles := filter (\<lambda>q. \<not> pt_life q \<le> 0)
                                    (map (\<lambda>q. Particle_update_arena q dt) (ag_particles gm3))\<rparr>
                   in if ag_enemies gm4 = [] then
                        (let gm5 = gm4\<lparr>ag_spawn_timer := ag_spawn_timer gm4 + dt\<rparr>
                         in if ag_spawn_timer gm5 > WAVE_INTERVAL then
                              (case spawn_wave (gm5\<lparr>ag_wave := ag_wave gm5 + 1\<rparr>) g3 of
                                 (gm6, g6) \<Rightarrow> Returned (gm6\<lparr>ag_spawn_timer := 0\<rparr>, g6))
                            else Returned (gm5, g3))
                      else Returned (gm4, g3))))"

text \<open>
  One pass of the loop of \<^verbatim>\<open>Game.run()\<close> (drawing left out), and the loop over
  the frames the window delivers. An exception is not caught: the run stops.
\<close>

record frame =
  fr_dt :: real
  fr_events :: "event list"
  fr_mouse_pressed :: bool
  fr_mouse_pos :: vec
  fr_keys :: keys

definition arena_frame :: "AGame \<Rightarrow> frame \<Rightarrow> rng \<Rightarrow> (AGame \<times> rng) outcome" where
  "arena_frame gm fr g =
     (case handle_input gm (fr_events fr) (fr_mouse_pressed fr) (fr_mouse_pos fr) g of
        Raised err s \<Rightarrow> Raised err s
      | Returned (gm1, g1) \<Rightarrow>
          (if ag_state gm1 = ''playing'' then AGame_update gm1 (fr_dt fr) (fr_keys fr) g1
           else Returned (gm1, g1)))"

fun arena_run :: "AGame \<Rightarrow> rng \<Rightarrow> frame list \<Rightarrow> (AGame \<times> rng) outcome" where
  "arena_run gm g [] = Returned (gm, g)"
| "arena_run gm g (fr # frs) =
     (if \<not> ag_running gm then Returned (gm, g)
      else case arena_frame gm fr g of
             Raised err s \<Rightarrow> Raised err s
           | Returned (gm1, g1) \<Rightarrow> arena_run gm1 g1 frs)"

text \<open>The bounds on the magazine.\<close>

definition ammo_ok :: "AGame \<Rightarrow> bool" where
  "ammo_ok gm \<longleftrightarrow> 0 \<le> ap_ammo (ag_player gm) \<and> ap_ammo (ag_player gm) \<le> PLAYER_AMMO"

section \<open>game3.py: the dungeon roguelite\<close>

definition TILE :: int where "TILE = 48"
definition MAP_W :: int where "MAP_W = 40"
definition MAP_H :: int where "MAP_H = 24"
definition ROOM_MIN :: int where "ROOM_MIN = 5"
definition ROOM_MAX :: int where "ROOM_MAX = 12"
definition MAX_ROOMS :: int where "MAX_ROOMS = 10"
definition PLAYER_SPEED_forge :: real where "PLAYER_SPEED_forge = 260"
definition DASH_SPEED_forge :: real where "DASH_SPEED_forge = 720"
definition DASH_TIME_forge :: real where "DASH_TIME_forge = 0.18"
definition INVINCIBLE_TIME :: real where "INVINCIBLE_TIME = 0.9"

subsection \<open>Dungeon generation\<close>

record RectRoom =
  rr_x :: int
  rr_y :: int
  rr_w :: int
  rr_h :: int
  rr_center :: "int \<times> int"

definition RectRoom_init :: "int \<Rightarrow> int \<Rightarrow> int \<Rightarrow> int \<Rightarrow> RectRoom" where
  "RectRoom_init x y w h =
     \<lparr>rr_x = x, rr_y = y, rr_w = w, rr_h = h, rr_center = (x + w div 2, y + h div 2)\<rparr>"

definition intersects :: "RectRoom \<Rightarrow> RectRoom \<Rightarrow> bool" where
  "intersects a b \<longleftrightarrow>
     rr_x a \<le> rr_x b + rr_w b \<and> rr_x a + rr_w a \<ge> rr_x b \<and>
     rr_y a \<le> rr_y b + rr_h b \<and> rr_y a + rr_h a \<ge> rr_y b"

text \<open>
  \<^verbatim>\<open>tiles\<close> is a list of \<open>MAP_W\<close> columns of \<open>MAP_H\<close> characters. Every write in
  the source is \<^verbatim>\<open>self.tiles[i][j] = '.'\<close> under the bounds test, which is
  \<open>carve\<close>.
\<close>

type_synonym tiles = "char list list"

record Dungeon =
  dg_tiles :: tiles
  dg_rooms :: "RectRoom list"

definition carve :: "tiles \<Rightarrow> int \<Rightarrow> int \<Rightarrow> tiles" where
  "carve t i j =
     (if 0 \<le> i \<and> i < MAP_W \<and> 0 \<le> j \<and> j < MAP_H
      then t[nat i := (t ! nat i)[nat j := CHR ''.'']]
      else t)"

definition get_tile :: "tiles \<Rightarrow> int \<Rightarrow> int \<Rightarrow> char" where
  "get_tile t tx ty =
     (if 0 \<le> tx \<and> tx < MAP_W \<and> 0 \<le> ty \<and> ty < MAP_H then t ! nat tx ! nat ty
      else CHR ''#'')"

text \<open>\<^verbatim>\<open>range(a, b)\<close> over ints is the list \<open>[a..b - 1]\<close>, so \<^verbatim>\<open>range(a, b + 1)\<close> is \<open>[a..b]\<close>.\<close>

definition create_room :: "tiles \<Rightarrow> RectRoom \<Rightarrow> tiles" where
  "create_room t room =
     fold (\<lambda>i t1. fold (\<lambda>j t2. carve t2 i j) [rr_y room..rr_y room + rr_h room - 1] t1)
       [rr_x room..rr_x room + rr_w room - 1] t"

definition create_h_tunnel :: "tiles \<Rightarrow> int \<Rightarrow> int \<Rightarrow> int \<Rightarrow> tiles" where
  "create_h_tunnel t x1 x2 y = fold (\<lambda>x t1. carve t1 x y) [min x1 x2..max x1 x2] t"

definition create_v_tunnel :: "tiles \<Rightarrow> int \<Rightarrow> int \<Rightarrow> int \<Rightarrow> tiles" where
  "create_v_tunnel t y1 y2 x = fold (\<lambda>y t1. carve t1 x y) [min y1 y2..max y1 y2] t"

text \<open>
  The candidate room that one pass of the loop of \<^verbatim>\<open>generate\<close> draws, and the
  pass itself. The pass draws the corridor's orientation only for an accepted
  room that is not the first.
\<close>

definition draw_room :: "rng \<Rightarrow> RectRoom \<times> rng" where
  "draw_room g =
     (case randint g ROOM_MIN ROOM_MAX of (w, g1) \<Rightarrow>
      case randint g1 ROOM_MIN ROOM_MAX of (h, g2) \<Rightarrow>
      case randint g2 1 (MAP_W - w - 2) of (x, g3) \<Rightarrow>
      case randint g3 1 (MAP_H - h - 2) of (y, g4) \<Rightarrow>
        (RectRoom_init x y w h, g4))"

definition connect_rooms :: "tiles \<Rightarrow> RectRoom \<Rightarrow> RectRoom \<Rightarrow> bool \<Rightarrow> tiles" where
  "connect_rooms t prev new_room horizontal_first =
     (case rr_center prev of (prev_x, prev_y) \<Rightarrow>
      case rr_center new_room of (new_x, new_y) \<Rightarrow>
        if horizontal_first
        then create_v_tunnel (create_h_tunnel t prev_x new_x prev_y) prev_y new_y new_x
        else create_h_tunnel (create_v_tunnel t prev_y new_y prev_x) prev_x new_x new_y)"

definition attempt :: "Dungeon \<Rightarrow> rng \<Rightarrow> Dungeon \<times> rng" where
  "attempt d g =
     (case draw_room g of (new_room, g4) \<Rightarrow>
        if list_ex (\<lambda>r. intersects new_room r) (dg_rooms d) then (d, g4)
        else
          (let d1 = d\<lparr>dg_tiles := create_room (dg_tiles d) new_room\<rparr>
           in case (if dg_rooms d1 \<noteq> [] then
                      (case choice g4 [True, False] of (c, g5) \<Rightarrow>
                         (d1\<lparr>dg_tiles :=
                               connect_rooms (dg_tiles d1) (last (dg_rooms d1)) new_room c\<rparr>, g5))
                    else (d1, g4)) of (d2, g6) \<Rightarrow>
              (d2\<lparr>dg_rooms := dg_rooms d2 @ [new_room]\<rparr>, g6)))"

fun generate_loop :: "nat \<Rightarrow> Dungeon \<Rightarrow> rng \<Rightarrow> Dungeon \<times> rng" where
  "generate_loop 0 d g = (d, g)"
| "generate_loop (Suc n) d g = (case attempt d g of (d1, g1) \<Rightarrow> generate_loop n d1 g1)"

definition generate :: "Dungeon \<Rightarrow> rng \<Rightarrow> Dungeon \<times> rng" where
  "generate d g = generate_loop (nat MAX_ROOMS) (d\<lparr>dg_rooms := []\<rparr>) g"

text \<open>
  \<^verbatim>\<open>Dungeon.__init__\<close>: seeding the generator fixes the stream \<open>g\<close>; the grid
  starts as walls and \<^verbatim>\<open>generate\<close> runs once.
\<close>

definition all_walls :: Dungeon where
  "all_walls = \<lparr>dg_tiles = replicate (nat MAP_W) (replicate (nat MAP_H) CHR ''#''),
                 dg_rooms = []\<rparr>"

definition Dungeon_init :: "rng \<Rightarrow> Dungeon \<times> rng" where
  "Dungeon_init g = generate all_walls g"

text \<open>
  Two sample generators: one whose raw outputs are all 0, so that every pass
  draws the 5 by 5 room at (1, 1); and one whose seventh output is 9, so that
  the second pass draws the 5 by 5 room at (10, 1).
\<close>

definition zero_rng :: rng where
  "zero_rng = \<lparr>rng_ints = (\<lambda>n. 0), rng_reals = (\<lambda>n. 0), rng_used = 0\<rparr>"

definition two_room_rng :: rng where
  "two_room_rng =
     \<lparr>rng_ints = (\<lambda>n. if n = 6 then 9 else 0), rng_reals = (\<lambda>n. 0), rng_used = 0\<rparr>"

text \<open>
  Floor cells, steps between neighbouring floor cells, and reachability along
  them; the cells a room covers.
\<close>

type_synonym cell = "int \<times> int"

definition is_floor :: "tiles \<Rightarrow> cell \<Rightarrow> bool" where
  "is_floor t c \<longleftrightarrow> get_tile t (fst c) (snd c) = CHR ''.''"

definition adjacent :: "cell \<Rightarrow> cell \<Rightarrow> bool" where
  "adjacent a b \<longleftrightarrow> \<bar>fst a - fst b\<bar> + \<bar>snd a - snd b\<bar> = 1"

definition floor_step :: "tiles \<Rightarrow> cell \<Rightarrow> cell \<Rightarrow> bool" where
  "floor_step t a b \<longleftrightarrow> is_floor t a \<and> is_floor t b \<and> adjacent a b"

definition reachable :: "tiles \<Rightarrow> cell \<Rightarrow> cell \<Rightarrow> bool" where
  "reachable t a b \<longleftrightarrow> is_floor t a \<and> (floor_step t)\<^sup>*\<^sup>* a b"

definition room_cells :: "RectRoom \<Rightarrow> cell set" where
  "room_cells r = {(i, j). rr_x r \<le> i \<and> i < rr_x r + rr_w r \<and> rr_y r \<le> j \<and> j < rr_y r + rr_h r}"

text \<open>The grid has \<open>MAP_W\<close> columns of \<open>MAP_H\<close> cells, as \<^verbatim>\<open>__init__\<close> builds it.\<close>

definition wf_tiles :: "tiles \<Rightarrow> bool" where
  "wf_tiles t \<longleftrightarrow> length t = nat MAP_W \<and> (\<forall>col\<in>set t. length col = nat MAP_H)"

text \<open>The bounds test of the source, on a cell.\<close>

definition in_map :: "cell \<Rightarrow> bool" where
  "in_map c \<longleftrightarrow> 0 \<le> fst c \<and> fst c < MAP_W \<and> 0 \<le> snd c \<and> snd c < MAP_H"

text \<open>What the four draws of a candidate room guarantee.\<close>

definition room_ok :: "RectRoom \<Rightarrow> bool" where
  "room_ok r \<longleftrightarrow> ROOM_MIN \<le> rr_w r \<and> rr_w r \<le> ROOM_MAX \<and> ROOM_MIN \<le> rr_h r \<and> rr_h r \<le> ROOM_MAX
     \<and> 1 \<le> rr_x r \<and> rr_x r \<le> MAP_W - rr_w r - 2 \<and> 1 \<le> rr_y r \<and> rr_y r \<le> MAP_H - rr_h r - 2
     \<and> rr_center r = (rr_x r + rr_w r div 2, rr_y r + rr_h r div 2)"

text \<open>
  Two cells are joined by an L-shaped corridor of floor: along the row of the
  first and then the column of the second, or along the column of the first and
  then the row of the second.
\<close>

definition L_joined :: "tiles \<Rightarrow> cell \<Rightarrow> cell \<Rightarrow> bool" where
  "L_joined t a b \<longleftrightarrow>
     ((\<forall>x. min (fst a) (fst b) \<le> x \<and> x \<le> max (fst a) (fst b) \<longrightarrow> is_floor t (x, snd a)) \<and>
      (\<forall>y. min (snd a) (snd b) \<le> y \<and> y \<le> max (snd a) (snd b) \<longrightarrow> is_floor t (fst b, y)))
     \<or>
     ((\<forall>y. min (snd a) (snd b) \<le> y \<and> y \<le> max (snd a) (snd b) \<longrightarrow> is_floor t (fst a, y)) \<and>
      (\<forall>x. min (fst a) (fst b) \<le> x \<and> x \<le> max (fst a) (fst b) \<longrightarrow> is_floor t (x, snd b)))"

text \<open>The invariant of the loop of \<^verbatim>\<open>generate\<close>.\<close>

definition dungeon_inv :: "Dungeon \<Rightarrow> bool" where
  "dungeon_inv d \<longleftrightarrow>
     wf_tiles (dg_tiles d)
     \<and> (\<forall>r\<in>set (dg_rooms d). room_ok r \<and> (\<forall>c\<in>room_cells r. is_floor (dg_tiles d) c))
     \<and> (\<forall>i j. i < length (dg_rooms d) \<and> j < length (dg_rooms d) \<and> i \<noteq> j
            \<longrightarrow> \<not> intersects (dg_rooms d ! i) (dg_rooms d ! j))
     \<and> (\<forall>r\<in>set (dg_rooms d). reachable (dg_tiles d) (rr_center (hd (dg_rooms d))) (rr_center r))
     \<and> (\<forall>i. Suc i < length (dg_rooms d)
            \<longrightarrow> L_joined (dg_tiles d) (rr_center (dg_rooms d ! i)) (rr_center (dg_rooms d ! Suc i)))"

text \<open>
  The passes of the loop as iterations of one step on the pair of dungeon and
  generator; whether the candidate that the next pass draws overlaps a placed
  room; and how many of the first \<open>n\<close> passes reject their candidate.
\<close>

definition attempt_step :: "Dungeon \<times> rng \<Rightarrow> Dungeon \<times> rng" where
  "attempt_step s = attempt (fst s) (snd s)"

definition attempts :: "nat \<Rightarrow> Dungeon \<times> rng \<Rightarrow> Dungeon \<times> rng" where
  "attempts k s = (attempt_step ^^ k) s"

definition candidate_overlaps :: "Dungeon \<times> rng \<Rightarrow> bool" where
  "candidate_overlaps s \<longleftrightarrow>
     list_ex (\<lambda>r. intersects (fst (draw_room (snd s))) r) (dg_rooms (fst s))"

definition rejected :: "nat \<Rightarrow> Dungeon \<times> rng \<Rightarrow> nat" where
  "rejected n s = length (filter (\<lambda>k. candidate_overlaps (attempts k s)) [0..<n])"

subsection \<open>Entities of game3.py\<close>

record FParticle =
  fp_pos :: vec
  fp_vel :: vec
  fp_life :: real
  fp_max_life :: real
  fp_col :: color

definition FParticle_init :: "vec \<Rightarrow> vec \<Rightarrow> real \<Rightarrow> color \<Rightarrow> FParticle" where
  "FParticle_init p v l c = \<lparr>fp_pos = p, fp_vel = v, fp_life = l, fp_max_life = l, fp_col = c\<rparr>"

definition FParticle_update :: "FParticle \<Rightarrow> real \<Rightarrow> FParticle" where
  "FParticle_update p dt =
     (let p1 = p\<lparr>fp_life := fp_life p - dt\<rparr>;
          p2 = p1\<lparr>fp_pos := vadd (fp_pos p1) (smul (fp_vel p1) dt)\<rparr>
      in p2\<lparr>fp_vel := smul (fp_vel p2) 0.92\<rparr>)"

text \<open>
  The owner of a projectile is read only by \<^verbatim>\<open>isinstance(pr.owner, Enemy)\<close> and
  \<^verbatim>\<open>isinstance(pr.owner, Player)\<close>, so it is the class of the owner.
\<close>

datatype owner = OwnerPlayer | OwnerEnemy

record Projectile =
  pr_pos :: vec
  pr_vel :: vec
  pr_owner :: owner
  pr_dmg :: real
  pr_life :: real

definition Projectile_init :: "vec \<Rightarrow> vec \<Rightarrow> owner \<Rightarrow> real \<Rightarrow> real \<Rightarrow> Projectile" where
  "Projectile_init p v ow dmg life =
     \<lparr>pr_pos = p, pr_vel = v, pr_owner = ow, pr_dmg = dmg, pr_life = life\<rparr>"

definition Projectile_update :: "Projectile \<Rightarrow> real \<Rightarrow> Projectile" where
  "Projectile_update pr dt =
     (let pr1 = pr\<lparr>pr_pos := vadd (pr_pos pr) (smul (pr_vel pr) dt)\<rparr>
      in pr1\<lparr>pr_life := pr_life pr1 - dt\<rparr>)"

record FPlayer =
  fpl_pos :: vec
  fpl_vel :: vec
  fpl_radius :: real
  fpl_hp :: real
  fpl_max_hp :: real
  fpl_dash_timer :: real
  fpl_inv_timer :: real
  fpl_gold :: int
  fpl_weapons :: "string list"
  fpl_cur_weapon :: int
  fpl_projectiles :: "Projectile list"

text \<open>
  \<^verbatim>\<open>Player(pos)\<close>; \<open>extra_hp\<close> is the flag read from the saved unlocks. The
  player's own particle list is never used and is left out.
\<close>

definition FPlayer_init :: "vec \<Rightarrow> bool \<Rightarrow> FPlayer" where
  "FPlayer_init p extra_hp =
     \<lparr>fpl_pos = p, fpl_vel = (0, 0), fpl_radius = 14,
      fpl_hp = (if \<not> extra_hp then 120 else 160),
      fpl_max_hp = (if \<not> extra_hp then 120 else 160),
      fpl_dash_timer = 0, fpl_inv_timer = 0, fpl_gold = 0,
      fpl_weapons = [''sword'', ''pistol'', ''grenade''], fpl_cur_weapon = 1,
      fpl_projectiles = []\<rparr>"

text \<open>Python's \<^verbatim>\<open>xs[i]\<close>: negative indices count from the end, others raise.\<close>

definition py_index :: "'a list \<Rightarrow> int \<Rightarrow> error + 'a" where
  "py_index xs i =
     (if 0 \<le> i \<and> i < int (length xs) then Inr (xs ! nat i)
      else if i < 0 \<and> - int (length xs) \<le> i then Inr (xs ! nat (int (length xs) + i))
      else Inl IndexError)"

definition FPlayer_shoot :: "FPlayer \<Rightarrow> vec \<Rightarrow> FPlayer outcome" where
  "FPlayer_shoot p target =
     (case py_index (fpl_weapons p) (fpl_cur_weapon p) of
        Inl e \<Rightarrow> Raised e p
      | Inr w \<Rightarrow>
          (let dirv0 = vsub target (fpl_pos p);
               dirv1 = (if length_squared dirv0 = 0 then (1, 0) else dirv0)
           in case normalize dirv1 of
                Inl e \<Rightarrow> Raised e p
              | Inr dirv \<Rightarrow>
                  (if w = ''pistol'' then
                     Returned (p\<lparr>fpl_projectiles := fpl_projectiles p @
                       [Projectile_init (vadd (fpl_pos p) (smul dirv 20)) (smul dirv 520)
                          OwnerPlayer 18 2.0]\<rparr>)
                   else if w = ''grenade'' then
                     Returned (p\<lparr>fpl_projectiles := fpl_projectiles p @
                       [Projectile_init (vadd (fpl_pos p) (smul dirv 20))
                          (vadd (smul dirv 360) (0, - 40)) OwnerPlayer 45 1.6]\<rparr>)
                   else if w = ''sword'' then
                     Returned (p\<lparr>fpl_projectiles := fpl_projectiles p @
                       [Projectile_init (vadd (fpl_pos p) (smul dirv 28)) (smul dirv 240)
                          OwnerPlayer 34 0.25]\<rparr>)
                   else Returned p)))"

text \<open>
  The particle bursts of \<^verbatim>\<open>physics\<close> and \<^verbatim>\<open>Player.update\<close>: \<open>n\<close> particles
  around \<open>base\<close>, each drawing two offsets in \<open>[-a, a]\<close>, two velocity components
  in \<open>[-b, b]\<close> and a life in \<open>[l0, l1]\<close>, in this order.
\<close>

fun burst ::
  "nat \<Rightarrow> vec \<Rightarrow> real \<Rightarrow> real \<Rightarrow> real \<Rightarrow> real \<Rightarrow> color \<Rightarrow> FParticle list \<Rightarrow> rng
     \<Rightarrow> FParticle list \<times> rng" where
  "burst 0 base a b l0 l1 col particles g = (particles, g)"
| "burst (Suc n) base a b l0 l1 col particles g =
     (case uniform g (- a) a of (ox, g1) \<Rightarrow>
      case uniform g1 (- a) a of (oy, g2) \<Rightarrow>
      case uniform g2 (- b) b of (vx, g3) \<Rightarrow>
      case uniform g3 (- b) b of (vy, g4) \<Rightarrow>
      case uniform g4 l0 l1 of (life, g5) \<Rightarrow>
        burst n base a b l0 l1 col
          (particles @ [FParticle_init (vadd base (ox, oy)) (vx, vy) life col]) g5)"

text \<open>
  The loop of \<^verbatim>\<open>Player.update\<close> over a copy of the player's own projectiles:
  each is advanced, and only one whose life has run out is appended to the
  game's list and removed from the player's. \<open>kept\<close> collects those that stay.
\<close>

fun own_projectiles_loop ::
  "real \<Rightarrow> Projectile list \<Rightarrow> Projectile list \<Rightarrow> Projectile list \<Rightarrow> FParticle list \<Rightarrow> rng
     \<Rightarrow> Projectile list \<times> Projectile list \<times> FParticle list \<times> rng" where
  "own_projectiles_loop dt [] kept projectiles_global particles g =
     (kept, projectiles_global, particles, g)"
| "own_projectiles_loop dt (pr # rest) kept projectiles_global particles g =
     (let pr1 = Projectile_update pr dt
      in if pr_life pr1 \<le> 0 then
           (case (if pr_dmg pr1 \<ge> 40
                  then burst 18 (pr_pos pr1) 6 120 0.4 0.9 (240, 180, 60) particles g
                  else (particles, g)) of (particles1, g1) \<Rightarrow>
              own_projectiles_loop dt rest kept (projectiles_global @ [pr1]) particles1 g1)
         else own_projectiles_loop dt rest (kept @ [pr1]) projectiles_global particles g)"

definition FPlayer_update ::
  "FPlayer \<Rightarrow> real \<Rightarrow> keys \<Rightarrow> Projectile list \<Rightarrow> FParticle list \<Rightarrow> rng
     \<Rightarrow> (FPlayer \<times> Projectile list \<times> FParticle list \<times> rng) outcome" where
  "FPlayer_update p dt ks projectiles_global particles g =
     (let move0 = key_move ks
      in case (if length_squared move0 > 0 then normalize move0 else Inr move0) of
           Inl e \<Rightarrow> Raised e (p, projectiles_global, particles, g)
         | Inr move \<Rightarrow>
             (let target_speed = (if fpl_dash_timer p > 0 then DASH_SPEED_forge
                                  else PLAYER_SPEED_forge);
                  p1 = (if fpl_dash_timer p > 0
                        then p\<lparr>fpl_dash_timer := fpl_dash_timer p - dt\<rparr> else p);
                  p2 = p1\<lparr>fpl_vel := vadd (fpl_vel p1)
                          (smul (vsub (smul move target_speed) (fpl_vel p1)) (clamp (12 * dt) 0 1))\<rparr>;
                  p3 = p2\<lparr>fpl_pos := vadd (fpl_pos p2) (smul (fpl_vel p2) dt)\<rparr>;
                  p4 = p3\<lparr>fpl_inv_timer := max 0 (fpl_inv_timer p3 - dt)\<rparr>
              in case own_projectiles_loop dt (fpl_projectiles p4) [] projectiles_global
                        particles g of
                   (kept, projectiles1, particles1, g1) \<Rightarrow>
                     Returned (p4\<lparr>fpl_projectiles := kept\<rparr>, projectiles1, particles1, g1)))"

record FEnemy =
  fe_pos :: vec
  fe_kind :: int
  fe_radius :: real
  fe_max_hp :: real
  fe_hp :: real
  fe_speed :: real
  fe_aggro :: real
  fe_fire_cooldown :: real

definition FEnemy_init :: "vec \<Rightarrow> int \<Rightarrow> FEnemy" where
  "FEnemy_init p kind =
     \<lparr>fe_pos = p, fe_kind = kind, fe_radius = (if kind = 0 then 14 else 20),
      fe_max_hp = (if kind = 0 then 40 else 110), fe_hp = (if kind = 0 then 40 else 110),
      fe_speed = (if kind = 0 then 120 else 70), fe_aggro = (if kind = 0 then 220 else 350),
      fe_fire_cooldown = 0\<rparr>"

text \<open>
  \<^verbatim>\<open>Enemy.update(dt, player, projectiles, particles)\<close>; the particles are not
  touched. \<open>to_player\<close> is computed once, before the enemy moves.
\<close>

definition FEnemy_update ::
  "FEnemy \<Rightarrow> real \<Rightarrow> FPlayer \<Rightarrow> Projectile list \<Rightarrow> (FEnemy \<times> Projectile list) outcome" where
  "FEnemy_update e dt player projectiles =
     (let to_player = vsub (fpl_pos player) (fe_pos e);
          dist = vlength to_player
      in if fe_kind e = 0 then
           (if dist < fe_aggro e then
              (case normalize to_player of
                 Inl err \<Rightarrow> Raised err (e, projectiles)
               | Inr dirv \<Rightarrow>
                   Returned (e\<lparr>fe_pos := vadd (fe_pos e) (smul (smul dirv (fe_speed e)) dt)\<rparr>,
                             projectiles))
            else Returned (e, projectiles))
         else
           (if dist < fe_aggro e then
              (case (if dist < 160 then
                       (case normalize to_player of
                          Inl err \<Rightarrow> Inl err
                        | Inr n \<Rightarrow>
                            Inr (e\<lparr>fe_pos := vsub (fe_pos e) (smul (smul n (fe_speed e)) dt)\<rparr>))
                     else if dist > 220 then
                       (case normalize to_player of
                          Inl err \<Rightarrow> Inl err
                        | Inr n \<Rightarrow>
                            Inr (e\<lparr>fe_pos := vadd (fe_pos e) (smul (smul n (fe_speed e)) dt)\<rparr>))
                     else Inr e) of
                 Inl err \<Rightarrow> Raised err (e, projectiles)
               | Inr e1 \<Rightarrow>
                   (let e2 = e1\<lparr>fe_fire_cooldown := fe_fire_cooldown e1 - dt\<rparr>
                    in if fe_fire_cooldown e2 \<le> 0 then
                         (let e3 = e2\<lparr>fe_fire_cooldown := 1.1\<rparr>
                          in case normalize to_player of
                               Inl err \<Rightarrow> Raised err (e3, projectiles)
                             | Inr n \<Rightarrow>
                                 Returned (e3, projectiles @
                                   [Projectile_init (vadd (fe_pos e3) (smul n 22)) (smul n 360)
                                      OwnerEnemy 14 2.0]))
                       else Returned (e2, projectiles)))
            else Returned (e, projectiles)))"

subsection \<open>The physics step of game3.py\<close>

record FGame =
  fg_player :: FPlayer
  fg_enemies :: "FEnemy list"
  fg_projectiles :: "Projectile list"
  fg_particles :: "FParticle list"
  fg_shake :: real
  fg_gold_total :: int

text \<open>
  The loop over a copy of the enemies: update, then reward and removal of an
  enemy without hit points. \<open>kept\<close> collects the enemies that stay, so that
  \<^verbatim>\<open>self.enemies\<close> is \<open>kept\<close> followed by the rest of the copy.
\<close>

fun enemy_phase ::
  "real \<Rightarrow> FEnemy list \<Rightarrow> FEnemy list \<Rightarrow> FGame \<Rightarrow> rng \<Rightarrow> (FGame \<times> rng) outcome" where
  "enemy_phase dt [] kept gm g = Returned (gm\<lparr>fg_enemies := kept\<rparr>, g)"
| "enemy_phase dt (e # rest) kept gm g =
     (case FEnemy_update e dt (fg_player gm) (fg_projectiles gm) of
        Raised err (e1, projectiles1) \<Rightarrow>
          Raised err (gm\<lparr>fg_enemies := kept @ e1 # rest, fg_projectiles := projectiles1\<rparr>, g)
      | Returned (e1, projectiles1) \<Rightarrow>
          (let gm1 = gm\<lparr>fg_projectiles := projectiles1\<rparr>
           in if fe_hp e1 \<le> 0 then
                (let reward = (if fe_kind e1 = 0 then 8 else 28);
                     gm2 = gm1\<lparr>fg_player := (fg_player gm1)\<lparr>fpl_gold :=
                                   fpl_gold (fg_player gm1) + reward\<rparr>,
                               fg_gold_total := fg_gold_total gm1 + reward\<rparr>
                 in case burst 12 (fe_pos e1) 6 120 0.4 1.0 (240, 100, 100)
                           (fg_particles gm2) g of
                      (particles1, g1) \<Rightarrow>
                        enemy_phase dt rest kept (gm2\<lparr>fg_particles := particles1\<rparr>) g1)
              else enemy_phase dt rest (kept @ [e1]) gm1 g))"

text \<open>
  The loop \<^verbatim>\<open>for e in self.enemies\<close> for one projectile of the player. There
  is no \<^verbatim>\<open>break\<close>: every enemy in range loses \<^verbatim>\<open>pr.dmg\<close>. The flag \<open>removed\<close>
  says whether \<^verbatim>\<open>self.projectiles.remove(pr)\<close> has run; a second call raises
  inside \<^verbatim>\<open>try ... except: pass\<close> and changes nothing.
\<close>

fun hit_enemies ::
  "Projectile \<Rightarrow> FEnemy list \<Rightarrow> FParticle list \<Rightarrow> rng \<Rightarrow> bool
     \<Rightarrow> FEnemy list \<times> FParticle list \<times> rng \<times> bool" where
  "hit_enemies pr [] particles g removed = ([], particles, g, removed)"
| "hit_enemies pr (e # es) particles g removed =
     (if vlength (vsub (pr_pos pr) (fe_pos e)) < fe_radius e + 6 then
        (case burst 6 (pr_pos pr) 3 80 0.2 0.6 (255, 200, 120) particles g of
           (particles1, g1) \<Rightarrow>
             (case hit_enemies pr es particles1 g1 True of
                (es1, particles2, g2, removed2) \<Rightarrow>
                  (e\<lparr>fe_hp := fe_hp e - pr_dmg pr\<rparr> # es1, particles2, g2, removed2)))
      else
        (case hit_enemies pr es particles g removed of
           (es1, particles2, g2, removed2) \<Rightarrow> (e # es1, particles2, g2, removed2)))"

text \<open>
  The loop over a copy of \<^verbatim>\<open>self.projectiles\<close>. \<open>kept\<close> collects the projectiles
  that stay in the list.
\<close>

fun projectile_phase ::
  "real \<Rightarrow> Projectile list \<Rightarrow> Projectile list \<Rightarrow> FGame \<Rightarrow> rng \<Rightarrow> FGame \<times> rng" where
  "projectile_phase dt [] kept gm g = (gm\<lparr>fg_projectiles := kept\<rparr>, g)"
| "projectile_phase dt (pr # rest) kept gm g =
     (let pr1 = Projectile_update pr dt
      in if pr_life pr1 \<le> 0 then projectile_phase dt rest kept gm g
         else
           (case pr_owner pr1 of
              OwnerEnemy \<Rightarrow>
                (if vlength (vsub (pr_pos pr1) (fpl_pos (fg_player gm)))
                      < fpl_radius (fg_player gm) + 6
                    \<and> fpl_inv_timer (fg_player gm) \<le> 0 then
                   (let gm1 = gm\<lparr>fg_player := (fg_player gm)\<lparr>fpl_hp :=
                                   fpl_hp (fg_player gm) - pr_dmg pr1, fpl_inv_timer := 0.6\<rparr>,
                                 fg_shake := 6\<rparr>
                    in case burst 8 (fpl_pos (fg_player gm1)) 6 120 0.2 0.7 (240, 200, 80)
                              (fg_particles gm1) g of
                         (particles1, g1) \<Rightarrow>
                           projectile_phase dt rest kept (gm1\<lparr>fg_particles := particles1\<rparr>) g1)
                 else projectile_phase dt rest (kept @ [pr1]) gm g)
            | OwnerPlayer \<Rightarrow>
                (case hit_enemies pr1 (fg_enemies gm) (fg_particles gm) g False of
                   (enemies1, particles1, g1, removed) \<Rightarrow>
                     projectile_phase dt rest (if removed then kept else kept @ [pr1])
                       (gm\<lparr>fg_enemies := enemies1, fg_particles := particles1\<rparr>) g1)))"

text \<open>\<^verbatim>\<open>Game.physics()\<close>: player, enemies, projectiles, particles, in this order.\<close>

definition physics :: "FGame \<Rightarrow> real \<Rightarrow> keys \<Rightarrow> rng \<Rightarrow> (FGame \<times> rng) outcome" where
  "physics gm dt ks g =
     (case FPlayer_update (fg_player gm) dt ks (fg_projectiles gm) (fg_particles gm) g of
        Raised err (p, projectiles1, particles1, g1) \<Rightarrow>
          Raised err (gm\<lparr>fg_player := p, fg_projectiles := projectiles1,
                          fg_particles := particles1\<rparr>, g1)
      | Returned (p, projectiles1, particles1, g1) \<Rightarrow>
          (let gm1 = gm\<lparr>fg_player := p, fg_projectiles := projectiles1,
                         fg_particles := particles1\<rparr>
           in case enemy_phase dt (fg_enemies gm1) [] gm1 g1 of
                Raised err s \<Rightarrow> Raised err s
              | Returned (gm2, g2) \<Rightarrow>
                  (case projectile_phase dt (fg_projectiles gm2) [] gm2 g2 of
                     (gm3, g3) \<Rightarrow>
                       Returned (gm3\<lparr>fg_particles := filter (\<lambda>q. \<not> fp_life q \<le> 0)
                                   (map (\<lambda>q. FParticle_update q dt) (fg_particles gm3))\<rparr>, g3))))"

text \<open>
  Two sample states. In \<open>shot_state\<close> the player at the origin has just fired
  the pistol towards an enemy standing at (30, 0). In \<open>pierce_state\<close> a live
  projectile of the player is in the game's list, on top of two enemies.
\<close>

definition shot_player :: FPlayer where
  "shot_player = obj (FPlayer_shoot (FPlayer_init (0, 0) False) (100, 0))"

definition shot_state :: FGame where
  "shot_state = \<lparr>fg_player = shot_player, fg_enemies = [FEnemy_init (30, 0) 0],
     fg_projectiles = [], fg_particles = [], fg_shake = 0, fg_gold_total = 0\<rparr>"

definition pierce_state :: FGame where
  "pierce_state = \<lparr>fg_player = FPlayer_init (1000, 0) False,
     fg_enemies = [FEnemy_init (0, 0) 0, FEnemy_init (0, 0) 0],
     fg_projectiles = [Projectile_init (0, 0) (0, 0) OwnerPlayer 18 1],
     fg_particles = [], fg_shake = 0, fg_gold_total = 0\<rparr>"

section \<open>Properties\<close>

lemma vlength_zero_iff: "vlength a = 0 \<longleftrightarrow> a = (0, 0)"
  by (cases a) (simp add: vlength_def length_squared_def add_nonneg_eq_0_iff)

lemma length_squared_pos_iff: "0 < length_squared a \<longleftrightarrow> a \<noteq> (0, 0)"
proof (cases a)
  case (Pair x y)
  have "0 < x * x + y * y \<longleftrightarrow> \<not> (x = 0 \<and> y = 0)"
    using sum_squares_gt_zero_iff [of x y] by simp
  then show ?thesis using Pair by (simp add: length_squared_def)
qed

lemma normalize_Inl_iff: "normalize a = Inl e \<longleftrightarrow> a = (0, 0) \<and> e = ValueError"
  by (auto simp add: normalize_def vlength_zero_iff)

subsection \<open>game.py: one step of the player\<close>

lemma normalize_unit_x: "normalize (1, 0) = Inr (1, 0)"
  by (simp add: normalize_def vlength_def length_squared_def)

text \<open>
  Claim C7. A player at (0,0) with velocity (0,0) and speed 320, whose keys give
  the unit move vector (1,0) with no dash key, is updated with dt = 1/60: the
  call returns, the velocity is exactly (320 * min(12/60, 1), 0) = (64, 0) and
  the position is exactly (64/60, 0).
\<close>

theorem Player_update_scenario:
  assumes "pl_pos p = (0, 0)" and "pl_vel p = (0, 0)" and "pl_speed p = 320"
    and "key_move ks = (1, 0)" and "\<not> ks K_LSHIFT"
  shows "\<exists>p'. Player_update p (1 / 60) ks = Returned p'
           \<and> pl_vel p' = (320 * min (12 / 60) 1, 0)
           \<and> pl_vel p' = (64, 0)
           \<and> pl_pos p' = (64 / 60, 0)"
  using assms
  by (simp add: Player_update_def normalize_unit_x length_squared_def Let_def
      clamp_def vadd_def vsub_def smul_def)

theorem Player_update_scenario_witness:
  "\<exists>p'. Player_update (Player_init (0, 0)) (1 / 60) (\<lambda>k. k = K_d) = Returned p'
         \<and> pl_vel p' = (64, 0) \<and> pl_pos p' = (64 / 60, 0)"
  using Player_update_scenario [of "Player_init (0, 0)" "\<lambda>k. k = K_d"]
  by (simp add: Player_init_def PLAYER_SPEED_def key_move_def)

subsection \<open>game2.py: jumps between ground contacts\<close>

lemma land_on_cases:
  "land_on R dt pr p pl = pl \<or>
   (rp_on_ground (land_on R dt pr p pl) \<and> rp_double_jumps (land_on R dt pr p pl) = MAX_DOUBLE_JUMP)"
  by (simp add: land_on_def Let_def)

lemma fold_land_on_cases:
  "rp_double_jumps (fold (land_on R dt pr) ps pl) = rp_double_jumps pl \<and>
     rp_on_ground (fold (land_on R dt pr) ps pl) = rp_on_ground pl
   \<or> rp_double_jumps (fold (land_on R dt pr) ps pl) = MAX_DOUBLE_JUMP \<and>
     rp_on_ground (fold (land_on R dt pr) ps pl)"
proof (induction ps arbitrary: pl)
  case Nil
  then show ?case by simp
next
  case (Cons p ps)
  show ?case
    using Cons.IH [of "land_on R dt pr p pl"] land_on_cases [of R dt pr p pl]
    by auto
qed

lemma RPlayer_update_double_jumps:
  "rp_double_jumps (RPlayer_update p dt) = rp_double_jumps p"
  by (simp add: RPlayer_update_def Let_def)

text \<open>A tick either ends in the air with the counter untouched, or on the ground with a full counter.\<close>

lemma runner_tick_cases:
  "(rp_double_jumps (runner_tick R dt ps pl) = rp_double_jumps pl \<and>
      \<not> rp_on_ground (runner_tick R dt ps pl))
   \<or> (rp_double_jumps (runner_tick R dt ps pl) = MAX_DOUBLE_JUMP \<and>
      rp_on_ground (runner_tick R dt ps pl))"
  using fold_land_on_cases [of R dt
      "RPlayer_rect R ((RPlayer_update pl dt)\<lparr>rp_on_ground := False\<rparr>)" ps
      "(RPlayer_update pl dt)\<lparr>rp_on_ground := False\<rparr>"]
  by (auto simp add: runner_tick_def platform_collisions_def Let_def RPlayer_update_double_jumps)

lemma runner_step_counter:
  assumes "0 \<le> rp_double_jumps p \<and> rp_double_jumps p \<le> MAX_DOUBLE_JUMP"
  shows "0 \<le> rp_double_jumps (runner_step R p e) \<and>
         rp_double_jumps (runner_step R p e) \<le> MAX_DOUBLE_JUMP"
proof (cases e)
  case JumpKey
  then show ?thesis
    using assms by (auto simp: RPlayer_jump_def MAX_DOUBLE_JUMP_def)
next
  case (Tick dt ps)
  then show ?thesis
    using assms runner_tick_cases [of R dt ps p] by (auto simp: MAX_DOUBLE_JUMP_def)
qed

lemma runner_run_counter:
  "0 \<le> rp_double_jumps p \<and> rp_double_jumps p \<le> MAX_DOUBLE_JUMP \<Longrightarrow>
   0 \<le> rp_double_jumps (runner_run R p es) \<and>
   rp_double_jumps (runner_run R p es) \<le> MAX_DOUBLE_JUMP"
proof (induction es arbitrary: p)
  case Nil
  then show ?case by simp
next
  case (Cons e es)
  from Cons.prems have "0 \<le> rp_double_jumps (runner_step R p e) \<and>
      rp_double_jumps (runner_step R p e) \<le> MAX_DOUBLE_JUMP"
    by (rule runner_step_counter)
  then show ?case using Cons.IH by simp
qed

text \<open>In the air only double jumps succeed, and each one uses up the counter.\<close>

lemma airborne_jumps_bound:
  "\<not> rp_on_ground p \<Longrightarrow> rp_double_jumps p \<le> MAX_DOUBLE_JUMP \<Longrightarrow>
   int (jumps_until_contact R p es) \<le> max 0 (rp_double_jumps p)"
proof (induction R p es rule: jumps_until_contact.induct)
  case (1 R pl)
  then show ?case by simp
next
  case (2 R pl es)
  then show ?case by (auto simp: RPlayer_jump_def split: if_splits)
next
  case (3 R pl dt platforms es)
  then show ?case using runner_tick_cases [of R dt platforms pl] by (auto simp: Let_def)
qed

lemma jumps_until_contact_bound:
  "rp_double_jumps p \<le> MAX_DOUBLE_JUMP \<Longrightarrow>
   int (jumps_until_contact R p es) \<le> 1 + MAX_DOUBLE_JUMP"
proof (induction R p es rule: jumps_until_contact.induct)
  case (1 R pl)
  then show ?case by (simp add: MAX_DOUBLE_JUMP_def)
next
  case (2 R pl es)
  show ?case
  proof (cases "rp_on_ground pl")
    case True
    then show ?thesis
      using airborne_jumps_bound [of "snd (RPlayer_jump pl)" R es]
      by (auto simp: RPlayer_jump_def MAX_DOUBLE_JUMP_def)
  next
    case False
    then show ?thesis
      using airborne_jumps_bound [of pl R "JumpKey # es"] 2
      by (auto simp: MAX_DOUBLE_JUMP_def)
  qed
next
  case (3 R pl dt platforms es)
  then show ?case
    using runner_tick_cases [of R dt platforms pl] by (auto simp: Let_def MAX_DOUBLE_JUMP_def)
qed

text \<open>
  Claim C10. A jump attempted in the air with no double jump left returns False
  and leaves the whole player (so its velocity, on_ground flag and double-jump
  counter) as it was. For every state \<open>runner_run R (RPlayer_init pos0) es0\<close>
  that a new player reaches through jump keys and ticks, and every further run
  \<open>es\<close> of jump keys and ticks, at most 1 + MAX_DOUBLE_JUMP jumps succeed before
  the next tick that ends on the ground, and the double-jump counter of the
  state lies between 0 and MAX_DOUBLE_JUMP.
\<close>

theorem runner_jump_limits:
  "(\<not> rp_on_ground p \<and> rp_double_jumps p = 0 \<longrightarrow> RPlayer_jump p = (False, p))
   \<and> int (jumps_until_contact R (runner_run R (RPlayer_init pos0) es0) es) \<le> 1 + MAX_DOUBLE_JUMP
   \<and> 0 \<le> rp_double_jumps (runner_run R (RPlayer_init pos0) es0)
   \<and> rp_double_jumps (runner_run R (RPlayer_init pos0) es0) \<le> MAX_DOUBLE_JUMP"
proof -
  have init: "0 \<le> rp_double_jumps (RPlayer_init pos0) \<and>
      rp_double_jumps (RPlayer_init pos0) \<le> MAX_DOUBLE_JUMP"
    by (simp add: RPlayer_init_def MAX_DOUBLE_JUMP_def)
  have inv: "0 \<le> rp_double_jumps (runner_run R (RPlayer_init pos0) es0) \<and>
      rp_double_jumps (runner_run R (RPlayer_init pos0) es0) \<le> MAX_DOUBLE_JUMP"
    using init by (rule runner_run_counter)
  have fail: "\<not> rp_on_ground p \<and> rp_double_jumps p = 0 \<longrightarrow> RPlayer_jump p = (False, p)"
    by (simp add: RPlayer_jump_def)
  have "int (jumps_until_contact R (runner_run R (RPlayer_init pos0) es0) es)
      \<le> 1 + MAX_DOUBLE_JUMP"
    using inv by (simp add: jumps_until_contact_bound)
  with inv fail show ?thesis by blast
qed

theorem runner_jump_limits_witness:
  "RPlayer_jump ((RPlayer_init (220, 320))\<lparr>rp_double_jumps := 0\<rparr>)
     = (False, (RPlayer_init (220, 320))\<lparr>rp_double_jumps := 0\<rparr>)
   \<and> int (jumps_until_contact
        \<lparr>Rect = (\<lambda>x y w h. (x, y, w, h)), colliderect = (\<lambda>a b. False),
         rect_top = (\<lambda>r. fst (snd r)), rect_bottom = (\<lambda>r. fst (snd r) + snd (snd (snd r)))\<rparr>
        (runner_run
           \<lparr>Rect = (\<lambda>x y w h. (x, y, w, h)), colliderect = (\<lambda>a b. False),
            rect_top = (\<lambda>r. fst (snd r)), rect_bottom = (\<lambda>r. fst (snd r) + snd (snd (snd r)))\<rparr>
           (RPlayer_init (220, 320)) [JumpKey])
        [JumpKey, JumpKey]) \<le> 1 + MAX_DOUBLE_JUMP"
  using runner_jump_limits [of "(RPlayer_init (220, 320))\<lparr>rp_double_jumps := 0\<rparr>"
      "\<lparr>Rect = (\<lambda>x y w h. (x, y, w, h)), colliderect = (\<lambda>a b. False),
        rect_top = (\<lambda>r. fst (snd r)), rect_bottom = (\<lambda>r. fst (snd r) + snd (snd (snd r)))\<rparr>"
      "(220, 320)" "[JumpKey]" "[JumpKey, JumpKey]"]
  by (simp add: RPlayer_init_def)

subsection \<open>game2mod.py: the wave spawner\<close>

lemma AEnemy_init_etype: "ae_etype (AEnemy_init p t) = t"
  by (simp add: AEnemy_init_def)

lemma choice_mem: "xs \<noteq> [] \<Longrightarrow> fst (choice g xs) \<in> set xs"
  by (simp add: choice_def randbelow_def split: prod.splits)

lemma spawn_one_appends:
  "\<exists>e. fst (spawn_one es g) = es @ [e] \<and> ae_etype e \<in> {''normal'', ''fast'', ''tank''}"
proof -
  obtain side g1 where c1: "choice g [''top'', ''bottom'', ''left'', ''right''] = (side, g1)"
    by (cases "choice g [''top'', ''bottom'', ''left'', ''right'']")
  obtain pos g2 where c2: "(if side = ''top'' then
              (case randint g1 0 (fst SCREEN_SIZE_arena) of (x, g2) \<Rightarrow> ((real_of_int x, - 40), g2))
            else if side = ''bottom'' then
              (case randint g1 0 (fst SCREEN_SIZE_arena) of (x, g2) \<Rightarrow>
                 ((real_of_int x, real_of_int (snd SCREEN_SIZE_arena + 40)), g2))
            else if side = ''left'' then
              (case randint g1 0 (snd SCREEN_SIZE_arena) of (y, g2) \<Rightarrow> ((- 40, real_of_int y), g2))
            else
              (case randint g1 0 (snd SCREEN_SIZE_arena) of (y, g2) \<Rightarrow>
                 ((real_of_int (fst SCREEN_SIZE_arena + 40), real_of_int y), g2))) = (pos, g2)"
    by (meson surj_pair)
  obtain etype g3 where c3: "choice g2 [''normal'', ''fast'', ''tank''] = (etype, g3)"
    by (cases "choice g2 [''normal'', ''fast'', ''tank'']")
  have "etype \<in> set [''normal'', ''fast'', ''tank'']"
    using choice_mem[of "[''normal'', ''fast'', ''tank'']" g2] c3 by simp
  then show ?thesis
    unfolding spawn_one_def c1 prod.case c2 c3 by (simp add: AEnemy_init_etype)
qed

lemma spawn_loop_appends:
  "\<exists>new. fst (spawn_loop n es g) = es @ new \<and> length new = n \<and>
     (\<forall>e\<in>set new. ae_etype e \<in> {''normal'', ''fast'', ''tank''})"
proof (induction n arbitrary: es g)
  case 0
  then show ?case by simp
next
  case (Suc n)
  obtain es1 g1 where s1: "spawn_one es g = (es1, g1)" by (cases "spawn_one es g")
  from spawn_one_appends[of es g] s1 obtain e where e: "es1 = es @ [e]" "ae_etype e \<in> {''normal'', ''fast'', ''tank''}"
    by auto
  from Suc.IH[of es1 g1] obtain new where new: "fst (spawn_loop n es1 g1) = es1 @ new" "length new = n"
     "\<forall>e\<in>set new. ae_etype e \<in> {''normal'', ''fast'', ''tank''}" by blast
  have "fst (spawn_loop (Suc n) es g) = es @ (e # new)" using s1 e new by simp
  moreover have "length (e # new) = Suc n" using new by simp
  moreover have "\<forall>x\<in>set (e # new). ae_etype x \<in> {''normal'', ''fast'', ''tank''}" using e new by simp
  ultimately show ?case by blast
qed

text \<open>
  Claim C4. \<^verbatim>\<open>spawn_wave\<close> appends to the enemies. When the wave index is a
  multiple of 5 it appends exactly one enemy, the boss at the top centre, and no
  other. Otherwise it appends \<open>nat (w * 2)\<close> enemies, which is \<open>w * 2\<close> for every
  wave index \<open>w \<ge> 0\<close> (the counter starts at 1 and is only incremented), and each
  of them is of kind normal, fast or tank, so none is a boss.
\<close>

theorem spawn_wave_kinds:
  "\<exists>new. ag_enemies (fst (spawn_wave gm g)) = ag_enemies gm @ new \<and>
     (if ag_wave gm mod 5 = 0
      then new = [AEnemy_init (real_of_int (fst SCREEN_SIZE_arena) / 2, - 80) ''boss'']
         \<and> length new = 1 \<and> (\<forall>e\<in>set new. ae_etype e = ''boss'')
      else length new = nat (ag_wave gm * 2)
         \<and> (0 \<le> ag_wave gm \<longrightarrow> int (length new) = ag_wave gm * 2)
         \<and> (\<forall>e\<in>set new. ae_etype e \<noteq> ''boss''
               \<and> ae_etype e \<in> {''normal'', ''fast'', ''tank''}))"
proof (cases "ag_wave gm mod 5 = 0")
  case True
  then show ?thesis by (simp add: spawn_wave_def AEnemy_init_etype)
next
  case False
  from spawn_loop_appends [of "nat (ag_wave gm * 2)" "ag_enemies gm" g]
  obtain new where new:
      "fst (spawn_loop (nat (ag_wave gm * 2)) (ag_enemies gm) g) = ag_enemies gm @ new"
      "length new = nat (ag_wave gm * 2)"
      "\<forall>e\<in>set new. ae_etype e \<in> {''normal'', ''fast'', ''tank''}"
    by blast
  have "ag_enemies (fst (spawn_wave gm g)) = ag_enemies gm @ new"
    using False new(1) by (simp add: spawn_wave_def case_prod_beta)
  moreover have "\<forall>e\<in>set new. ae_etype e \<noteq> ''boss''
      \<and> ae_etype e \<in> {''normal'', ''fast'', ''tank''}"
    using new(3) by auto
  ultimately show ?thesis using False new(2) by auto
qed

theorem spawn_wave_kinds_witness:
  "ag_enemies (fst (spawn_wave (AGame_init\<lparr>ag_wave := 5\<rparr>)
       \<lparr>rng_ints = (\<lambda>n. n), rng_reals = (\<lambda>n. 0), rng_used = 0\<rparr>))
     = [AEnemy_init (500, - 80) ''boss'']
   \<and> length (ag_enemies (fst (spawn_wave (AGame_init\<lparr>ag_wave := 3\<rparr>)
       \<lparr>rng_ints = (\<lambda>n. n), rng_reals = (\<lambda>n. 0), rng_used = 0\<rparr>))) = 6"
  using spawn_wave_kinds [of "AGame_init\<lparr>ag_wave := 3\<rparr>"
      "\<lparr>rng_ints = (\<lambda>n. n), rng_reals = (\<lambda>n. 0), rng_used = 0\<rparr>"]
    spawn_wave_kinds [of "AGame_init\<lparr>ag_wave := 5\<rparr>"
      "\<lparr>rng_ints = (\<lambda>n. n), rng_reals = (\<lambda>n. 0), rng_used = 0\<rparr>"]
  by (auto simp add: AGame_init_def SCREEN_SIZE_arena_def)

subsection \<open>game2mod.py: the magazine\<close>

lemma spawn_wave_player: "ag_player (fst (spawn_wave gm g)) = ag_player gm"
  by (simp add: spawn_wave_def case_prod_beta)

lemma start_ok: "ammo_ok (fst (AGame_start gm g))"
  by (simp add: AGame_start_def Let_def case_prod_beta spawn_wave_player ammo_ok_def APlayer_init_def PLAYER_AMMO_def)

lemma handle_event_ok: "ammo_ok gm \<Longrightarrow> ammo_ok (fst (handle_event gm g ev))"
proof (cases ev)
  case QUIT
  assume "ammo_ok gm" then show ?thesis using QUIT by (simp add: handle_event_def ammo_ok_def)
next
  case (KEYDOWN k)
  assume a: "ammo_ok gm" 
  show ?thesis using KEYDOWN a start_ok[of "gm\<lparr>ag_running := False\<rparr>" g] start_ok[of gm g]
    by (auto simp add: handle_event_def Let_def case_prod_beta  ammo_ok_def)
next
  case OTHER_EVENT
  assume "ammo_ok gm" then show ?thesis using OTHER_EVENT by (simp add: handle_event_def)
qed

lemma handle_events_ok: "ammo_ok gm \<Longrightarrow> ammo_ok (fst (handle_events gm g evs))"
proof (induction evs arbitrary: gm g)
  case Nil then show ?case by simp
next
  case (Cons ev evs)
  obtain gm1 g1 where h: "handle_event gm g ev = (gm1, g1)" by (cases "handle_event gm g ev")
  with handle_event_ok[OF Cons.prems, of g ev] have "ammo_ok gm1" by simp
  from Cons.IH[OF this, of g1] show ?case using h by simp
qed

lemma shot_particles_player: "ag_player (fst (obj (shot_particles n gm dir g))) = ag_player gm"
  by (induction n gm dir g rule: shot_particles.induct) (auto split: sum.splits prod.splits)

lemma shot_particles_bullets: "ag_bullets (fst (obj (shot_particles n gm dir g))) = ag_bullets gm"
  by (induction n gm dir g rule: shot_particles.induct) (auto split: sum.splits prod.splits)

lemma fire_ok: "ammo_ok gm \<Longrightarrow> ammo_ok (fst (obj (fire gm mp mpos g)))"
  by (auto simp add: fire_def Let_def shot_particles_player ammo_ok_def split: sum.splits)

lemma handle_input_ok: "ammo_ok gm \<Longrightarrow> ammo_ok (fst (obj (handle_input gm evs mp mpos g)))"
proof -
  assume a: "ammo_ok gm"
  obtain gm1 g1 where h: "handle_events gm g evs = (gm1, g1)" by (cases "handle_events gm g evs")
  have "ammo_ok gm1" using handle_events_ok[OF a, of g evs] h by simp
  then have "ammo_ok (fst (obj (fire gm1 mp mpos g1)))" by (rule fire_ok)
  then show ?thesis using h by (simp add: handle_input_def)
qed

lemma APlayer_update_ok:
  "0 \<le> ap_ammo p \<and> ap_ammo p \<le> PLAYER_AMMO \<Longrightarrow>
   0 \<le> ap_ammo (obj (APlayer_update p dt ks)) \<and> ap_ammo (obj (APlayer_update p dt ks)) \<le> PLAYER_AMMO"
  by (auto simp add: APlayer_update_def Let_def PLAYER_AMMO_def split: sum.splits)

lemma contact_damage_ammo: "ap_ammo (ag_player (contact_damage gm e dt)) = ap_ammo (ag_player gm)"
  by (simp add: contact_damage_def Let_def)

lemma enemies_loop_ammo:
  "ap_ammo (ag_player (fst (obj (enemies_loop dt es kept gm g)))) = ap_ammo (ag_player gm)"
proof (induction es arbitrary: kept gm g)
  case Nil
  then show ?case by simp
next
  case (Cons e rest)
  show ?case
    by (simp add: Let_def Cons.IH contact_damage_ammo
        split: outcome.splits option.splits prod.splits)
qed

lemma AGame_update_ok: "ammo_ok gm \<Longrightarrow> ammo_ok (fst (obj (AGame_update gm dt ks g)))"
proof -
  assume a: "ammo_ok gm"
  show ?thesis
  proof (cases "APlayer_update (ag_player gm) dt ks")
    case (Raised err p)
    then show ?thesis using a APlayer_update_ok[of "ag_player gm" dt ks]
      by (simp add: AGame_update_def ammo_ok_def)
  next
    case (Returned p)
    let ?gm2 = "gm\<lparr>ag_player := p, ag_bullets := filter (\<lambda>b. \<not> ab_life b \<le> 0)
                                          (map (\<lambda>b. ABullet_update b dt) (ag_bullets gm))\<rparr>"
    have p: "0 \<le> ap_ammo p \<and> ap_ammo p \<le> PLAYER_AMMO"
      using a APlayer_update_ok[of "ag_player gm" dt ks] Returned by (simp add: ammo_ok_def)
    have l: "ap_ammo (ag_player (fst (obj (enemies_loop dt (ag_enemies ?gm2) [] ?gm2 g)))) = ap_ammo p"
      by (simp add: enemies_loop_ammo)
    show ?thesis
    proof (cases "enemies_loop dt (ag_enemies ?gm2) [] ?gm2 g")
      case (Raised err s)
      then show ?thesis using Returned p l by (simp add: AGame_update_def Let_def ammo_ok_def)
    next
      case R: (Returned s)
      obtain gm3 g3 where s: "s = (gm3, g3)" by (cases s)
      then show ?thesis using Returned R p l
        by (simp add: AGame_update_def Let_def ammo_ok_def case_prod_beta spawn_wave_player)
    qed
  qed
qed

lemma arena_frame_ok: "ammo_ok gm \<Longrightarrow> ammo_ok (fst (obj (arena_frame gm fr g)))"
  using handle_input_ok[of gm "fr_events fr" "fr_mouse_pressed fr" "fr_mouse_pos fr" g]
  by (auto simp: arena_frame_def AGame_update_ok split: outcome.splits)

lemma arena_run_ok: "ammo_ok gm \<Longrightarrow> ammo_ok (fst (obj (arena_run gm g frs)))"
proof (induction frs arbitrary: gm g)
  case Nil then show ?case by simp
next
  case (Cons fr frs)
  show ?case
  proof (cases "arena_frame gm fr g")
    case (Returned s)
    obtain gm1 g1 where s: "s = (gm1, g1)" by (cases s)
    have "ammo_ok gm1" using arena_frame_ok[OF Cons.prems, of fr g] Returned s by simp
    from Cons.IH[OF this, of g1] show ?thesis using Returned s Cons.prems by simp
  next
    case (Raised err s)
    then show ?thesis using arena_frame_ok[OF Cons.prems, of fr g] Cons.prems by simp
  qed
qed

lemma init_ok: "ammo_ok AGame_init"
  by (simp add: ammo_ok_def AGame_init_def APlayer_init_def PLAYER_AMMO_def)


lemma fire_shot:
  "ag_bullets (fst (obj (fire gm mp mpos g))) \<noteq> ag_bullets gm \<longrightarrow>
     ap_ammo (ag_player gm) > 0 \<and> \<not> ap_reloading (ag_player gm)
     \<and> ap_ammo (ag_player (fst (obj (fire gm mp mpos g)))) = ap_ammo (ag_player gm) - 1
     \<and> length (ag_bullets (fst (obj (fire gm mp mpos g)))) = length (ag_bullets gm) + 1"
  by (auto simp add: fire_def Let_def shot_particles_player shot_particles_bullets split: sum.splits)

lemma fire_no_shot:
  "ag_bullets (fst (obj (fire gm mp mpos g))) = ag_bullets gm \<longrightarrow>
     ap_ammo (ag_player (fst (obj (fire gm mp mpos g)))) = ap_ammo (ag_player gm)"
  by (auto simp add: fire_def Let_def shot_particles_player shot_particles_bullets split: sum.splits)

lemma reload_done:
  "ap_reloading p \<and> ap_reload_timer p - dt \<le> 0 \<longrightarrow>
     ap_ammo (obj (APlayer_update p dt ks)) = PLAYER_AMMO \<and> \<not> ap_reloading (obj (APlayer_update p dt ks))"
  by (auto simp add: APlayer_update_def Let_def length_squared_pos_iff normalize_Inl_iff
      split: sum.splits)

lemma reload_not_done:
  "\<not> (ap_reloading p \<and> ap_reload_timer p - dt \<le> 0) \<longrightarrow>
     ap_ammo (obj (APlayer_update p dt ks)) = ap_ammo p"
  by (auto simp add: APlayer_update_def Let_def split: sum.splits)

text \<open>
  Claim C9. In every state that the arena shooter reaches from its initial state
  through frames of input and update (also the state at an uncaught exception),
  the ammo count lies between 0 and PLAYER_AMMO = 30. The firing block of
  \<^verbatim>\<open>handle_input\<close> emits a bullet only when the ammo is positive and the player
  is not reloading, and then appends exactly one bullet and takes exactly one
  round; when it emits none, the ammo is unchanged. \<^verbatim>\<open>Player.update\<close> sets the
  ammo to exactly PLAYER_AMMO when a reload completes, and leaves it otherwise.
\<close>

theorem arena_ammo_bounds:
  "0 \<le> ap_ammo (ag_player (fst (obj (arena_run AGame_init g frs))))
   \<and> ap_ammo (ag_player (fst (obj (arena_run AGame_init g frs)))) \<le> PLAYER_AMMO
   \<and> PLAYER_AMMO = 30
   \<and> (ag_bullets (fst (obj (fire gm mp mpos g'))) \<noteq> ag_bullets gm \<longrightarrow>
        ap_ammo (ag_player gm) > 0 \<and> \<not> ap_reloading (ag_player gm)
        \<and> ap_ammo (ag_player (fst (obj (fire gm mp mpos g')))) = ap_ammo (ag_player gm) - 1
        \<and> length (ag_bullets (fst (obj (fire gm mp mpos g')))) = length (ag_bullets gm) + 1)
   \<and> (ag_bullets (fst (obj (fire gm mp mpos g'))) = ag_bullets gm \<longrightarrow>
        ap_ammo (ag_player (fst (obj (fire gm mp mpos g')))) = ap_ammo (ag_player gm))
   \<and> (ap_reloading p \<and> ap_reload_timer p - dt \<le> 0 \<longrightarrow>
        ap_ammo (obj (APlayer_update p dt ks)) = PLAYER_AMMO
        \<and> \<not> ap_reloading (obj (APlayer_update p dt ks)))
   \<and> (\<not> (ap_reloading p \<and> ap_reload_timer p - dt \<le> 0) \<longrightarrow>
        ap_ammo (obj (APlayer_update p dt ks)) = ap_ammo p)"
proof -
  have "ammo_ok (fst (obj (arena_run AGame_init g frs)))"
    using init_ok by (rule arena_run_ok)
  then have inv: "0 \<le> ap_ammo (ag_player (fst (obj (arena_run AGame_init g frs))))
     \<and> ap_ammo (ag_player (fst (obj (arena_run AGame_init g frs)))) \<le> PLAYER_AMMO"
    by (simp add: ammo_ok_def)
  have thirty: "PLAYER_AMMO = 30" by (simp add: PLAYER_AMMO_def)
  from inv thirty fire_shot [of gm mp mpos g'] fire_no_shot [of gm mp mpos g']
    reload_done [of p dt ks] reload_not_done [of p dt ks]
  show ?thesis by blast
qed

theorem arena_ammo_bounds_witness:
  "0 \<le> ap_ammo (ag_player (fst (obj (arena_run AGame_init
          \<lparr>rng_ints = (\<lambda>n. n), rng_reals = (\<lambda>n. 0), rng_used = 0\<rparr>
          [\<lparr>fr_dt = 1 / 60, fr_events = [KEYDOWN K_SPACE], fr_mouse_pressed = True,
            fr_mouse_pos = (0, 0), fr_keys = (\<lambda>k. False)\<rparr>]))))
   \<and> ap_ammo (ag_player (fst (obj (fire (AGame_init\<lparr>ag_state := ''playing''\<rparr>) True (501, 350)
          \<lparr>rng_ints = (\<lambda>n. n), rng_reals = (\<lambda>n. 0), rng_used = 0\<rparr>)))) = 29
   \<and> ap_ammo (obj (APlayer_update
          ((APlayer_init (500, 350))\<lparr>ap_ammo := 3, ap_reloading := True, ap_reload_timer := 1 / 100\<rparr>)
          (1 / 60) (\<lambda>k. False))) = 30"
  using arena_ammo_bounds [of "\<lparr>rng_ints = (\<lambda>n. n), rng_reals = (\<lambda>n. 0), rng_used = 0\<rparr>"
      "[\<lparr>fr_dt = 1 / 60, fr_events = [KEYDOWN K_SPACE], fr_mouse_pressed = True,
            fr_mouse_pos = (0, 0), fr_keys = (\<lambda>k. False)\<rparr>]"
      "AGame_init\<lparr>ag_state := ''playing''\<rparr>" True "(501, 350)"
      "\<lparr>rng_ints = (\<lambda>n. n), rng_reals = (\<lambda>n. 0), rng_used = 0\<rparr>"
      "(APlayer_init (500, 350))\<lparr>ap_ammo := 3, ap_reloading := True, ap_reload_timer := 1 / 100\<rparr>"
      "1 / 60" "\<lambda>k. False"]
  by (simp add: fire_def AGame_init_def APlayer_init_def arena_centre_def SCREEN_SIZE_arena_def
      PLAYER_AMMO_def ABullet_init_def vsub_def normalize_unit_x Let_def
      shot_particles_player shot_particles_bullets)


subsection \<open>game3.py: carving and reachability\<close>

lemma wf_carve: "wf_tiles t \<Longrightarrow> wf_tiles (carve t i j)"
  by (auto simp add: wf_tiles_def carve_def set_update_subset_insert dest!: subsetD[OF set_update_subset_insert])

lemma get_tile_carve:
  assumes "wf_tiles t"
  shows "get_tile (carve t i j) a b =
     (if a = i \<and> b = j \<and> in_map (i, j) then CHR ''.'' else get_tile t a b)"
proof (cases "in_map (i, j)")
  case False
  then show ?thesis by (auto simp add: carve_def in_map_def)
next
  case True
  show ?thesis
  proof (cases "in_map (a, b)")
    case False
    then show ?thesis using True by (auto simp add: get_tile_def in_map_def)
  next
    case ab: True
    have l: "length t = nat MAP_W" using assms by (simp add: wf_tiles_def)
    have li: "length (t ! nat i) = nat MAP_H" using assms True l
      by (simp add: wf_tiles_def in_map_def)
    show ?thesis using True ab l li 
      by (auto simp add: carve_def get_tile_def in_map_def nth_list_update)
  qed
qed

lemma is_floor_carve:
  "wf_tiles t \<Longrightarrow> is_floor (carve t i j) c \<longleftrightarrow> is_floor t c \<or> (c = (i, j) \<and> in_map c)"
  by (cases c) (auto simp add: is_floor_def get_tile_carve)

lemma fold_carve:
  assumes "wf_tiles t"
  shows "wf_tiles (fold (\<lambda>x t1. carve t1 (f x) (h x)) xs t) \<and>
     (\<forall>c. is_floor (fold (\<lambda>x t1. carve t1 (f x) (h x)) xs t) c \<longleftrightarrow>
          is_floor t c \<or> (\<exists>x\<in>set xs. c = (f x, h x) \<and> in_map c))"
  using assms
proof (induction xs arbitrary: t)
  case Nil
  then show ?case by simp
next
  case (Cons x xs)
  have w: "wf_tiles (carve t (f x) (h x))" using Cons.prems by (rule wf_carve)
  from Cons.IH[OF w] show ?case
    using is_floor_carve[OF Cons.prems, of "f x" "h x"] by auto
qed

lemma create_h_tunnel_floor:
  assumes "wf_tiles t"
  shows "wf_tiles (create_h_tunnel t x1 x2 y) \<and>
     (\<forall>c. is_floor (create_h_tunnel t x1 x2 y) c \<longleftrightarrow>
          is_floor t c \<or> (min x1 x2 \<le> fst c \<and> fst c \<le> max x1 x2 \<and> snd c = y \<and> in_map c))"
  using fold_carve [OF assms, of "\<lambda>x. x" "\<lambda>x. y" "[min x1 x2..max x1 x2]"]
  unfolding create_h_tunnel_def by auto

lemma create_v_tunnel_floor:
  assumes "wf_tiles t"
  shows "wf_tiles (create_v_tunnel t y1 y2 x) \<and>
     (\<forall>c. is_floor (create_v_tunnel t y1 y2 x) c \<longleftrightarrow>
          is_floor t c \<or> (min y1 y2 \<le> snd c \<and> snd c \<le> max y1 y2 \<and> fst c = x \<and> in_map c))"
  using fold_carve [OF assms, of "\<lambda>y. x" "\<lambda>y. y" "[min y1 y2..max y1 y2]"]
  unfolding create_v_tunnel_def by auto

lemma create_room_floor:
  assumes "wf_tiles t"
  shows "wf_tiles (create_room t r) \<and>
     (\<forall>c. is_floor (create_room t r) c \<longleftrightarrow> is_floor t c \<or> (c \<in> room_cells r \<and> in_map c))"
proof -
  have "wf_tiles (fold (\<lambda>i t1. fold (\<lambda>j t2. carve t2 i j) ys t1) xs t) \<and>
     (\<forall>c. is_floor (fold (\<lambda>i t1. fold (\<lambda>j t2. carve t2 i j) ys t1) xs t) c \<longleftrightarrow>
          is_floor t c \<or> (fst c \<in> set xs \<and> snd c \<in> set ys \<and> in_map c))" for xs ys
    using assms
  proof (induction xs arbitrary: t)
    case Nil
    then show ?case by simp
  next
    case (Cons x xs)
    let ?t1 = "fold (\<lambda>j t2. carve t2 x j) ys t"
    have t1: "wf_tiles ?t1 \<and> (\<forall>c. is_floor ?t1 c \<longleftrightarrow>
          is_floor t c \<or> (\<exists>j\<in>set ys. c = (x, j) \<and> in_map c))"
      using fold_carve [OF Cons.prems, of "\<lambda>j. x" "\<lambda>j. j" ys] by simp
    from Cons.IH [of ?t1] t1 show ?case by auto
  qed
  from this [of "[rr_y r..rr_y r + rr_h r - 1]" "[rr_x r..rr_x r + rr_w r - 1]"]
  show ?thesis unfolding create_room_def room_cells_def by auto
qed

lemma floor_step_sym: "floor_step t a b \<Longrightarrow> floor_step t b a"
  by (auto simp add: floor_step_def adjacent_def)

lemma reachable_refl: "is_floor t a \<Longrightarrow> reachable t a a"
  by (simp add: reachable_def)

lemma reachable_trans: "reachable t a b \<Longrightarrow> reachable t b c \<Longrightarrow> reachable t a c"
  by (auto simp add: reachable_def)

lemma reachable_end_floor: "reachable t a b \<Longrightarrow> is_floor t b"
  unfolding reachable_def
proof (elim conjE)
  assume "is_floor t a" "(floor_step t)\<^sup>*\<^sup>* a b"
  from this(2) this(1) show "is_floor t b"
    by (induction rule: rtranclp_induct) (auto simp add: floor_step_def)
qed

lemma reachable_sym: "reachable t a b \<Longrightarrow> reachable t b a"
proof -
  assume r: "reachable t a b"
  then have "(floor_step t)\<^sup>*\<^sup>* a b" by (simp add: reachable_def)
  then have "(floor_step t)\<^sup>*\<^sup>* b a"
  proof (induction rule: rtranclp_induct)
    case base
    then show ?case by simp
  next
    case (step y z)
    then show ?case by (meson floor_step_sym converse_rtranclp_into_rtranclp)
  qed
  then show ?thesis using reachable_end_floor [OF r] by (simp add: reachable_def)
qed

lemma reachable_mono:
  assumes "\<And>c. is_floor t c \<Longrightarrow> is_floor t' c" and "reachable t a b"
  shows "reachable t' a b"
proof -
  have "floor_step t x y \<Longrightarrow> floor_step t' x y" for x y
    using assms(1) by (auto simp add: floor_step_def)
  then have "(floor_step t)\<^sup>*\<^sup>* a b \<Longrightarrow> (floor_step t')\<^sup>*\<^sup>* a b"
    by (metis mono_rtranclp)
  then show ?thesis using assms by (auto simp add: reachable_def)
qed

lemma reachable_step: "is_floor t a \<Longrightarrow> is_floor t b \<Longrightarrow> adjacent a b \<Longrightarrow> reachable t a b"
  by (auto simp add: reachable_def floor_step_def)

lemma h_line_up:
  "(\<And>x. x1 \<le> x \<Longrightarrow> x \<le> x1 + int n \<Longrightarrow> is_floor t (x, y)) \<Longrightarrow> reachable t (x1, y) (x1 + int n, y)"
proof (induction n)
  case 0
  then show ?case by (simp add: reachable_refl)
next
  case (Suc n)
  have a: "reachable t (x1, y) (x1 + int n, y)" using Suc by simp
  have b: "reachable t (x1 + int n, y) (x1 + int (Suc n), y)"
    by (rule reachable_step) (auto simp add: Suc.prems adjacent_def)
  from a b show ?case by (rule reachable_trans)
qed

lemma h_line:
  assumes "\<And>x. min x1 x2 \<le> x \<Longrightarrow> x \<le> max x1 x2 \<Longrightarrow> is_floor t (x, y)"
  shows "reachable t (x1, y) (x2, y)"
proof (cases "x1 \<le> x2")
  case True
  have "reachable t (x1, y) (x1 + int (nat (x2 - x1)), y)"
    by (rule h_line_up) (use True assms in auto)
  then show ?thesis using True by simp
next
  case False
  have "reachable t (x2, y) (x2 + int (nat (x1 - x2)), y)"
    by (rule h_line_up) (use False assms in auto)
  then have "reachable t (x2, y) (x1, y)" using False by simp
  then show ?thesis by (rule reachable_sym)
qed

lemma v_line_up:
  "(\<And>y. y1 \<le> y \<Longrightarrow> y \<le> y1 + int n \<Longrightarrow> is_floor t (x, y)) \<Longrightarrow> reachable t (x, y1) (x, y1 + int n)"
proof (induction n)
  case 0
  then show ?case by (simp add: reachable_refl)
next
  case (Suc n)
  have a: "reachable t (x, y1) (x, y1 + int n)" using Suc by simp
  have b: "reachable t (x, y1 + int n) (x, y1 + int (Suc n))"
    by (rule reachable_step) (auto simp add: Suc.prems adjacent_def)
  from a b show ?case by (rule reachable_trans)
qed

lemma v_line:
  assumes "\<And>y. min y1 y2 \<le> y \<Longrightarrow> y \<le> max y1 y2 \<Longrightarrow> is_floor t (x, y)"
  shows "reachable t (x, y1) (x, y2)"
proof (cases "y1 \<le> y2")
  case True
  have "reachable t (x, y1) (x, y1 + int (nat (y2 - y1)))"
    by (rule v_line_up) (use True assms in auto)
  then show ?thesis using True by simp
next
  case False
  have "reachable t (x, y2) (x, y2 + int (nat (y1 - y2)))"
    by (rule v_line_up) (use False assms in auto)
  then have "reachable t (x, y2) (x, y1)" using False by simp
  then show ?thesis by (rule reachable_sym)
qed

lemma room_connected:
  assumes fl: "\<And>c. c \<in> room_cells r \<Longrightarrow> is_floor t c"
    and a: "a \<in> room_cells r" and b: "b \<in> room_cells r"
  shows "reachable t a b"
proof -
  obtain ax ay where A: "a = (ax, ay)" by (cases a)
  obtain bx by' where B: "b = (bx, by')" by (cases b)
  have "reachable t (ax, ay) (bx, ay)"
    by (rule h_line, rule fl) (use a b A B in \<open>auto simp add: room_cells_def\<close>)
  moreover have "reachable t (bx, ay) (bx, by')"
    by (rule v_line, rule fl) (use a b A B in \<open>auto simp add: room_cells_def\<close>)
  ultimately show ?thesis using A B reachable_trans by blast
qed



lemma randint_range: "a \<le> b \<Longrightarrow> a \<le> fst (randint g a b) \<and> fst (randint g a b) \<le> b"
proof -
  assume ab: "a \<le> b"
  have pos: "0 < nat (b - a + 1)" using ab by simp
  have "rng_ints g (rng_used g) mod nat (b - a + 1) < nat (b - a + 1)"
    using pos by (rule mod_less_divisor)
  then have "int (rng_ints g (rng_used g) mod nat (b - a + 1)) < int (nat (b - a + 1))"
    by (simp only: of_nat_less_iff)
  also have "\<dots> = b - a + 1" using ab by simp
  finally show ?thesis by (simp add: randint_def randbelow_def)
qed

lemma draw_room_ok: "room_ok (fst (draw_room g))"
proof -
  obtain w g1 where w: "randint g ROOM_MIN ROOM_MAX = (w, g1)" by (cases "randint g ROOM_MIN ROOM_MAX")
  obtain h g2 where h: "randint g1 ROOM_MIN ROOM_MAX = (h, g2)" by (cases "randint g1 ROOM_MIN ROOM_MAX")
  obtain x g3 where x: "randint g2 1 (MAP_W - w - 2) = (x, g3)" by (cases "randint g2 1 (MAP_W - w - 2)")
  obtain y g4 where y: "randint g3 1 (MAP_H - h - 2) = (y, g4)" by (cases "randint g3 1 (MAP_H - h - 2)")
  have wr: "ROOM_MIN \<le> w \<and> w \<le> ROOM_MAX"
    using randint_range [of ROOM_MIN ROOM_MAX g] w by (simp add: ROOM_MIN_def ROOM_MAX_def)
  have hr: "ROOM_MIN \<le> h \<and> h \<le> ROOM_MAX"
    using randint_range [of ROOM_MIN ROOM_MAX g1] h by (simp add: ROOM_MIN_def ROOM_MAX_def)
  have xr: "1 \<le> x \<and> x \<le> MAP_W - w - 2"
    using randint_range [of 1 "MAP_W - w - 2" g2] x wr by (simp add: ROOM_MAX_def MAP_W_def)
  have yr: "1 \<le> y \<and> y \<le> MAP_H - h - 2"
    using randint_range [of 1 "MAP_H - h - 2" g3] y hr by (simp add: ROOM_MAX_def MAP_H_def)
  have "fst (draw_room g) = RectRoom_init x y w h"
    by (simp add: draw_room_def w h x y)
  then show ?thesis using wr hr xr yr by (simp add: room_ok_def RectRoom_init_def)
qed

lemma room_ok_in_map: "room_ok r \<Longrightarrow> c \<in> room_cells r \<Longrightarrow> in_map c"
  by (auto simp add: room_ok_def room_cells_def in_map_def ROOM_MIN_def)

lemma room_ok_center: "room_ok r \<Longrightarrow> rr_center r \<in> room_cells r"
  by (auto simp add: room_ok_def room_cells_def ROOM_MIN_def)

lemma L_joined_reachable: "L_joined t a b \<Longrightarrow> reachable t a b"
proof -
  assume L: "L_joined t a b"
  obtain ax ay where A: "a = (ax, ay)" by (cases a)
  obtain bx by' where B: "b = (bx, by')" by (cases b)
  from L consider
    (hv) "(\<forall>x. min ax bx \<le> x \<and> x \<le> max ax bx \<longrightarrow> is_floor t (x, ay))"
         "(\<forall>y. min ay by' \<le> y \<and> y \<le> max ay by' \<longrightarrow> is_floor t (bx, y))"
  | (vh) "(\<forall>y. min ay by' \<le> y \<and> y \<le> max ay by' \<longrightarrow> is_floor t (ax, y))"
         "(\<forall>x. min ax bx \<le> x \<and> x \<le> max ax bx \<longrightarrow> is_floor t (x, by'))"
    unfolding L_joined_def A B by auto
  then show ?thesis
  proof cases
    case hv
    have "reachable t (ax, ay) (bx, ay)" by (rule h_line) (use hv in auto)
    moreover have "reachable t (bx, ay) (bx, by')" by (rule v_line) (use hv in auto)
    ultimately show ?thesis unfolding A B by (rule reachable_trans)
  next
    case vh
    have "reachable t (ax, ay) (ax, by')" by (rule v_line) (use vh in auto)
    moreover have "reachable t (ax, by') (bx, by')" by (rule h_line) (use vh in auto)
    ultimately show ?thesis unfolding A B by (rule reachable_trans)
  qed
qed

lemma L_joined_mono:
  "(\<And>c. is_floor t c \<Longrightarrow> is_floor t' c) \<Longrightarrow> L_joined t a b \<Longrightarrow> L_joined t' a b"
  unfolding L_joined_def by blast



lemma connect_rooms_props:
  assumes wf: "wf_tiles t" and a: "in_map (rr_center prev)" and b: "in_map (rr_center new_room)"
  shows "wf_tiles (connect_rooms t prev new_room c)
     \<and> (\<forall>x. is_floor t x \<longrightarrow> is_floor (connect_rooms t prev new_room c) x)
     \<and> L_joined (connect_rooms t prev new_room c) (rr_center prev) (rr_center new_room)"
proof -
  obtain px py where P: "rr_center prev = (px, py)" by (cases "rr_center prev")
  obtain nx ny where N: "rr_center new_room = (nx, ny)" by (cases "rr_center new_room")
  show ?thesis
  proof (cases c)
    case True
    let ?t1 = "create_h_tunnel t px nx py"
    let ?t2 = "create_v_tunnel ?t1 py ny nx"
    note h = create_h_tunnel_floor [OF wf, of px nx py]
    from h have wf1: "wf_tiles ?t1" by simp
    note v = create_v_tunnel_floor [OF wf1, of py ny nx]
    have eq: "connect_rooms t prev new_room c = ?t2"
      using True by (simp add: connect_rooms_def P N)
    have "\<forall>x. min px nx \<le> x \<and> x \<le> max px nx \<longrightarrow> is_floor ?t2 (x, py)"
      using h v a b P N by (auto simp add: in_map_def)
    moreover have "\<forall>y. min py ny \<le> y \<and> y \<le> max py ny \<longrightarrow> is_floor ?t2 (nx, y)"
      using v a b P N by (auto simp add: in_map_def)
    ultimately have "L_joined ?t2 (px, py) (nx, ny)" by (simp add: L_joined_def)
    then show ?thesis using eq h v P N by simp
  next
    case False
    let ?t1 = "create_v_tunnel t py ny px"
    let ?t2 = "create_h_tunnel ?t1 px nx ny"
    note v = create_v_tunnel_floor [OF wf, of py ny px]
    from v have wf1: "wf_tiles ?t1" by simp
    note h = create_h_tunnel_floor [OF wf1, of px nx ny]
    have eq: "connect_rooms t prev new_room c = ?t2"
      using False by (simp add: connect_rooms_def P N)
    have "\<forall>y. min py ny \<le> y \<and> y \<le> max py ny \<longrightarrow> is_floor ?t2 (px, y)"
      using h v a b P N by (auto simp add: in_map_def)
    moreover have "\<forall>x. min px nx \<le> x \<and> x \<le> max px nx \<longrightarrow> is_floor ?t2 (x, ny)"
      using h a b P N by (auto simp add: in_map_def)
    ultimately have "L_joined ?t2 (px, py) (nx, ny)" by (simp add: L_joined_def)
    then show ?thesis using eq h v P N by simp
  qed
qed



lemma intersects_sym: "intersects a b \<Longrightarrow> intersects b a"
  by (auto simp add: intersects_def)

lemma attempt_inv:
  assumes inv: "dungeon_inv d"
  shows "dungeon_inv (fst (attempt d g))"
proof -
  obtain nr g4 where dr: "draw_room g = (nr, g4)" by (cases "draw_room g")
  have ok: "room_ok nr" using draw_room_ok [of g] dr by simp
  let ?t = "dg_tiles d" and ?rs = "dg_rooms d"
  from inv have wf: "wf_tiles ?t"
    and rooms: "\<And>r. r \<in> set ?rs \<Longrightarrow> room_ok r \<and> (\<forall>c\<in>room_cells r. is_floor ?t c)"
    and disj: "\<And>i j. i < length ?rs \<Longrightarrow> j < length ?rs \<Longrightarrow> i \<noteq> j
         \<Longrightarrow> \<not> intersects (?rs ! i) (?rs ! j)"
    and reach: "\<And>r. r \<in> set ?rs \<Longrightarrow> reachable ?t (rr_center (hd ?rs)) (rr_center r)"
    and joined: "\<And>i. Suc i < length ?rs
         \<Longrightarrow> L_joined ?t (rr_center (?rs ! i)) (rr_center (?rs ! Suc i))"
    unfolding dungeon_inv_def by blast+
  show ?thesis
  proof (cases "list_ex (\<lambda>r. intersects nr r) ?rs")
    case True
    then have "fst (attempt d g) = d" by (simp add: attempt_def dr)
    then show ?thesis using inv by simp
  next
    case False
    then have free: "\<And>r. r \<in> set ?rs \<Longrightarrow> \<not> intersects nr r"
      by (simp add: list_ex_iff)
    let ?t1 = "create_room ?t nr"
    note cr = create_room_floor [OF wf, of nr]
    from cr have wf1: "wf_tiles ?t1" by blast
    have mono1: "\<And>c. is_floor ?t c \<Longrightarrow> is_floor ?t1 c" using cr by blast
    have new_floor1: "\<And>c. c \<in> room_cells nr \<Longrightarrow> is_floor ?t1 c"
      using cr room_ok_in_map [OF ok] by blast
    show ?thesis
    proof (cases "?rs = []")
      case True
      then have eq: "fst (attempt d g) = d\<lparr>dg_tiles := ?t1, dg_rooms := [nr]\<rparr>"
        using False by (simp add: attempt_def dr Let_def)
      have "reachable ?t1 (rr_center nr) (rr_center nr)"
        by (rule reachable_refl, rule new_floor1, rule room_ok_center, rule ok)
      then show ?thesis
        unfolding eq dungeon_inv_def using wf1 ok new_floor1 by simp
    next
      case ne: False
      obtain c g5 where ch: "choice g4 [True, False] = (c, g5)"
        by (cases "choice g4 [True, False]")
      let ?prev = "last ?rs"
      let ?t2 = "connect_rooms ?t1 ?prev nr c"
      have eq: "fst (attempt d g) = d\<lparr>dg_tiles := ?t2, dg_rooms := ?rs @ [nr]\<rparr>"
        using False ne by (simp add: attempt_def dr Let_def ch)
      have prev_in: "?prev \<in> set ?rs" using ne by simp
      have prev_map: "in_map (rr_center ?prev)"
        using rooms [OF prev_in] room_ok_center room_ok_in_map by blast
      have new_map: "in_map (rr_center nr)"
        using ok room_ok_center room_ok_in_map by blast
      note cp = connect_rooms_props [OF wf1 prev_map new_map, of c]
      from cp have wf2: "wf_tiles ?t2" by blast
      have mono2: "\<And>x. is_floor ?t1 x \<Longrightarrow> is_floor ?t2 x" using cp by blast
      have mono: "\<And>x. is_floor ?t x \<Longrightarrow> is_floor ?t2 x" using mono1 mono2 by blast
      have Lnew: "L_joined ?t2 (rr_center ?prev) (rr_center nr)" using cp by blast
      have i2: "\<forall>r\<in>set (?rs @ [nr]). room_ok r \<and> (\<forall>c\<in>room_cells r. is_floor ?t2 c)"
      proof
        fix r assume "r \<in> set (?rs @ [nr])"
        then consider "r \<in> set ?rs" | "r = nr" by auto
        then show "room_ok r \<and> (\<forall>c\<in>room_cells r. is_floor ?t2 c)"
        proof cases
          case 1
          then show ?thesis using rooms [OF 1] mono by blast
        next
          case 2
          then show ?thesis using ok new_floor1 mono2 by blast
        qed
      qed
      have i3: "\<forall>i j. i < length (?rs @ [nr]) \<and> j < length (?rs @ [nr]) \<and> i \<noteq> j
            \<longrightarrow> \<not> intersects ((?rs @ [nr]) ! i) ((?rs @ [nr]) ! j)"
      proof (intro allI impI, elim conjE)
        fix i j assume i: "i < length (?rs @ [nr])" and j: "j < length (?rs @ [nr])" and ij: "i \<noteq> j"
        consider "i < length ?rs" "j < length ?rs" | "i < length ?rs" "j = length ?rs"
          | "i = length ?rs" "j < length ?rs"
          using i j ij by (auto simp add: less_Suc_eq)
        then show "\<not> intersects ((?rs @ [nr]) ! i) ((?rs @ [nr]) ! j)"
        proof cases
          case 1
          then show ?thesis using disj [of i j] ij by (simp add: nth_append)
        next
          case 2
          have "\<not> intersects nr (?rs ! i)" using free 2 by simp
          then have "\<not> intersects (?rs ! i) nr" using intersects_sym by blast
          then show ?thesis using 2 by (simp add: nth_append)
        next
          case 3
          have "\<not> intersects nr (?rs ! j)" using free 3 by simp
          then show ?thesis using 3 by (simp add: nth_append)
        qed
      qed
      have hd_eq: "hd (?rs @ [nr]) = hd ?rs" using ne by simp
      have r_prev: "reachable ?t2 (rr_center (hd ?rs)) (rr_center ?prev)"
        using reach [OF prev_in] mono reachable_mono by blast
      have r_new: "reachable ?t2 (rr_center (hd ?rs)) (rr_center nr)"
        using r_prev L_joined_reachable [OF Lnew] by (rule reachable_trans)
      have i4: "\<forall>r\<in>set (?rs @ [nr]). reachable ?t2 (rr_center (hd (?rs @ [nr]))) (rr_center r)"
      proof
        fix r assume "r \<in> set (?rs @ [nr])"
        then consider "r \<in> set ?rs" | "r = nr" by auto
        then show "reachable ?t2 (rr_center (hd (?rs @ [nr]))) (rr_center r)"
        proof cases
          case 1
          then show ?thesis unfolding hd_eq using reach [OF 1] mono reachable_mono by blast
        next
          case 2
          then show ?thesis unfolding hd_eq using r_new by simp
        qed
      qed
      have i5: "\<forall>i. Suc i < length (?rs @ [nr])
            \<longrightarrow> L_joined ?t2 (rr_center ((?rs @ [nr]) ! i)) (rr_center ((?rs @ [nr]) ! Suc i))"
      proof (intro allI impI)
        fix i assume "Suc i < length (?rs @ [nr])"
        then consider "Suc i < length ?rs" | "Suc i = length ?rs" by (auto simp add: less_Suc_eq)
        then show "L_joined ?t2 (rr_center ((?rs @ [nr]) ! i)) (rr_center ((?rs @ [nr]) ! Suc i))"
        proof cases
          case 1
          have "L_joined ?t2 (rr_center (?rs ! i)) (rr_center (?rs ! Suc i))"
            using joined [OF 1] mono L_joined_mono by blast
          then show ?thesis using 1 by (simp add: nth_append)
        next
          case 2
          then have "?rs ! i = ?prev" using ne by (metis diff_Suc_1 last_conv_nth)
          then show ?thesis using 2 Lnew by (simp add: nth_append)
        qed
      qed
      show ?thesis unfolding eq dungeon_inv_def using wf2 i2 i3 i4 i5 by simp
    qed
  qed
qed

lemma generate_loop_inv: "dungeon_inv d \<Longrightarrow> dungeon_inv (fst (generate_loop n d g))"
proof (induction n arbitrary: d g)
  case 0
  then show ?case by simp
next
  case (Suc n)
  obtain d1 g1 where a: "attempt d g = (d1, g1)" by (cases "attempt d g")
  have "dungeon_inv d1" using attempt_inv [OF Suc.prems, of g] a by simp
  from Suc.IH [OF this, of g1] show ?case using a by simp
qed

lemma wf_initial: "wf_tiles (dg_tiles all_walls)"
  by (simp add: wf_tiles_def all_walls_def)

lemma Dungeon_init_inv: "dungeon_inv (fst (Dungeon_init g))"
  unfolding Dungeon_init_def generate_def
  by (rule generate_loop_inv) (simp add: dungeon_inv_def wf_initial)

subsection \<open>game3.py: the bounded loop of the generator\<close>



lemma generate_loop_attempts: "generate_loop n d g = attempts n (d, g)"
proof (induction n arbitrary: d g)
  case 0
  then show ?case by (simp add: attempts_def)
next
  case (Suc n)
  obtain d1 g1 where a: "attempt d g = (d1, g1)" by (cases "attempt d g")
  have "attempts (Suc n) (d, g) = attempts n (attempt_step (d, g))"
    by (simp add: attempts_def funpow_swap1)
  then show ?case using Suc.IH [of d1 g1] a by (simp add: attempt_step_def)
qed

lemma attempt_rooms:
  "dg_rooms (fst (attempt d g)) =
     (if candidate_overlaps (d, g) then dg_rooms d else dg_rooms d @ [fst (draw_room g)])"
  by (simp add: attempt_def candidate_overlaps_def Let_def case_prod_beta)

lemma attempt_overlap_unchanged: "candidate_overlaps (d, g) \<Longrightarrow> fst (attempt d g) = d"
  by (simp add: attempt_def candidate_overlaps_def case_prod_beta)

lemma randint_used: "rng_used (snd (randint g a b)) = rng_used g + 1"
  by (simp add: randint_def randbelow_def rng_next_def)

lemma choice_used: "rng_used (snd (choice g xs)) = rng_used g + 1"
  by (simp add: choice_def randbelow_def rng_next_def)

lemma draw_room_used: "rng_used (snd (draw_room g)) = rng_used g + 4"
  by (simp add: draw_room_def case_prod_beta randint_used)

lemma attempt_used:
  "rng_used (snd (attempt d g)) \<le> rng_used g + 5 \<and> rng_used g \<le> rng_used (snd (attempt d g))"
  by (simp add: attempt_def Let_def case_prod_beta draw_room_used choice_used)

lemma attempts_Suc: "attempts (Suc n) s = attempt (fst (attempts n s)) (snd (attempts n s))"
  by (simp add: attempts_def attempt_step_def)

lemma attempts_used: "rng_used (snd (attempts n s)) \<le> rng_used (snd s) + 5 * n"
proof (induction n)
  case 0
  then show ?case by (simp add: attempts_def)
next
  case (Suc n)
  have "rng_used (snd (attempts (Suc n) s)) \<le> rng_used (snd (attempts n s)) + 5"
    unfolding attempts_Suc using attempt_used by blast
  then show ?case using Suc by simp
qed

lemma attempts_count:
  "length (dg_rooms (fst (attempts n s))) + rejected n s = length (dg_rooms (fst s)) + n"
proof (induction n)
  case 0
  then show ?case by (simp add: attempts_def rejected_def)
next
  case (Suc n)
  have r: "rejected (Suc n) s = rejected n s + (if candidate_overlaps (attempts n s) then 1 else 0)"
    by (simp add: rejected_def)
  have l: "length (dg_rooms (fst (attempts (Suc n) s))) =
      length (dg_rooms (fst (attempts n s))) + (if candidate_overlaps (attempts n s) then 0 else 1)"
    unfolding attempts_Suc by (simp add: attempt_rooms)
  show ?case using Suc r l by simp
qed

lemma first_attempt_accepted: "dg_rooms (fst s) = [] \<Longrightarrow> \<not> candidate_overlaps s"
  by (simp add: candidate_overlaps_def)

lemma rejected_less: "0 < n \<Longrightarrow> dg_rooms (fst s) = [] \<Longrightarrow> rejected n s < n"
proof -
  assume n: "0 < n" and e: "dg_rooms (fst s) = []"
  have z: "\<not> candidate_overlaps (attempts 0 s)"
    using first_attempt_accepted [OF e] by (simp add: attempts_def)
  have "filter (\<lambda>k. candidate_overlaps (attempts k s)) [0..<n]
      = filter (\<lambda>k. candidate_overlaps (attempts k s)) [Suc 0..<n]"
    using n z by (simp add: upt_conv_Cons)
  then have "rejected n s \<le> length [Suc 0..<n]"
    unfolding rejected_def by (metis length_filter_le)
  then show ?thesis using n by simp
qed

lemma generate_room_count:
  "length (dg_rooms (fst (generate d g)))
     + rejected (nat MAX_ROOMS) (d\<lparr>dg_rooms := []\<rparr>, g) = nat MAX_ROOMS
   \<and> 1 \<le> length (dg_rooms (fst (generate d g)))
   \<and> length (dg_rooms (fst (generate d g))) \<le> nat MAX_ROOMS"
proof -
  let ?s = "(d\<lparr>dg_rooms := []\<rparr>, g)"
  have g: "generate d g = attempts (nat MAX_ROOMS) ?s"
    by (simp add: generate_def generate_loop_attempts)
  have c: "length (dg_rooms (fst (generate d g))) + rejected (nat MAX_ROOMS) ?s = nat MAX_ROOMS"
    unfolding g using attempts_count [of "nat MAX_ROOMS" ?s] by simp
  have "rejected (nat MAX_ROOMS) ?s < nat MAX_ROOMS"
    by (rule rejected_less) (simp_all add: MAX_ROOMS_def)
  with c show ?thesis by linarith
qed

text \<open>
  Claim C6. \<^verbatim>\<open>generate\<close> is exactly MAX_ROOMS = 10 passes of its loop body, so
  it returns for every generator, after at most 5 draws per pass. A pass whose
  candidate overlaps a placed room leaves the dungeon as it is (no retry); a
  pass whose candidate overlaps none appends the candidate. Hence the number of
  rooms placed plus the number of rejected candidates is MAX_ROOMS: every
  overlap costs one room, and with no overlap all MAX_ROOMS rooms are placed.
  At least one room and at most MAX_ROOMS rooms are placed.
\<close>

theorem generate_bounded:
  "generate d g = attempts (nat MAX_ROOMS) (d\<lparr>dg_rooms := []\<rparr>, g)
   \<and> nat MAX_ROOMS = 10
   \<and> rng_used (snd (generate d g)) \<le> rng_used g + 5 * nat MAX_ROOMS
   \<and> (candidate_overlaps (d', g') \<longrightarrow> fst (attempt d' g') = d')
   \<and> (\<not> candidate_overlaps (d', g') \<longrightarrow>
        dg_rooms (fst (attempt d' g')) = dg_rooms d' @ [fst (draw_room g')])
   \<and> length (dg_rooms (fst (generate d g)))
        + rejected (nat MAX_ROOMS) (d\<lparr>dg_rooms := []\<rparr>, g) = nat MAX_ROOMS
   \<and> (rejected (nat MAX_ROOMS) (d\<lparr>dg_rooms := []\<rparr>, g) = 0 \<longrightarrow>
        length (dg_rooms (fst (generate d g))) = nat MAX_ROOMS)
   \<and> 1 \<le> length (dg_rooms (fst (generate d g)))
   \<and> length (dg_rooms (fst (generate d g))) \<le> nat MAX_ROOMS"
proof -
  let ?s = "(d\<lparr>dg_rooms := []\<rparr>, g)"
  have g: "generate d g = attempts (nat MAX_ROOMS) ?s"
    by (simp add: generate_def generate_loop_attempts)
  have u: "rng_used (snd (generate d g)) \<le> rng_used g + 5 * nat MAX_ROOMS"
    unfolding g using attempts_used [of "nat MAX_ROOMS" ?s] by simp
  note c = generate_room_count [of d g]
  have z: "rejected (nat MAX_ROOMS) ?s = 0 \<longrightarrow>
      length (dg_rooms (fst (generate d g))) = nat MAX_ROOMS"
    using c by simp
  have m: "nat MAX_ROOMS = 10" by (simp add: MAX_ROOMS_def)
  have o: "candidate_overlaps (d', g') \<longrightarrow> fst (attempt d' g') = d'"
    using attempt_overlap_unchanged by blast
  have a: "\<not> candidate_overlaps (d', g') \<longrightarrow>
        dg_rooms (fst (attempt d' g')) = dg_rooms d' @ [fst (draw_room g')]"
    by (simp add: attempt_rooms)
  from g m u o a c z show ?thesis by blast
qed

lemma all_walls_no_rooms: "all_walls\<lparr>dg_rooms := []\<rparr> = all_walls"
  by (simp add: all_walls_def)

lemma all_walls_rooms: "dg_rooms all_walls = []"
  by (simp add: all_walls_def)

lemma sample_first_pass_accepts:
  "\<not> candidate_overlaps (all_walls, two_room_rng)"
  by code_simp

lemma sample_second_pass_rejects:
  "candidate_overlaps (fst (attempt all_walls two_room_rng), zero_rng)"
  by code_simp

lemma sample_rooms:
  "dg_rooms (fst (generate all_walls two_room_rng))
   = [RectRoom_init 1 1 5 5, RectRoom_init 10 1 5 5]"
  by code_simp

theorem generate_bounded_witness:
  "dg_rooms (fst (attempt all_walls two_room_rng))
     = [] @ [fst (draw_room two_room_rng)]
   \<and> fst (attempt (fst (attempt all_walls two_room_rng)) zero_rng)
     = fst (attempt all_walls two_room_rng)
   \<and> length (dg_rooms (fst (generate all_walls two_room_rng))) = 2
   \<and> rejected (nat MAX_ROOMS) (all_walls, two_room_rng) = 8"
  using generate_bounded [of all_walls two_room_rng all_walls two_room_rng]
    generate_bounded [of all_walls two_room_rng
      "fst (attempt all_walls two_room_rng)" zero_rng]
    sample_first_pass_accepts sample_second_pass_rejects sample_rooms
  by (simp add: all_walls_no_rooms all_walls_rooms)

subsection \<open>game3.py: rooms are disjoint and connected\<close>

lemma room_cells_disjoint: "\<not> intersects a b \<Longrightarrow> room_cells a \<inter> room_cells b = {}"
  by (auto simp add: intersects_def room_cells_def)

text \<open>
  Claim C3. For every generator (seed), the dungeon that \<^verbatim>\<open>Dungeon.__init__\<close>
  builds has at least one room; no two placed rooms intersect (by the source's
  own test, which also counts touching rectangles), so they share no cell;
  every cell of every placed room is reachable from every cell of the first
  placed room along neighbouring floor cells; and the centers of each
  consecutive pair of rooms are joined by an L-shaped corridor of floor.
\<close>

theorem dungeon_disjoint_connected:
  "dg_rooms (fst (Dungeon_init g)) \<noteq> []
   \<and> (\<forall>i j. i < length (dg_rooms (fst (Dungeon_init g)))
          \<and> j < length (dg_rooms (fst (Dungeon_init g))) \<and> i \<noteq> j
        \<longrightarrow> \<not> intersects (dg_rooms (fst (Dungeon_init g)) ! i) (dg_rooms (fst (Dungeon_init g)) ! j)
          \<and> room_cells (dg_rooms (fst (Dungeon_init g)) ! i)
              \<inter> room_cells (dg_rooms (fst (Dungeon_init g)) ! j) = {})
   \<and> (\<forall>r\<in>set (dg_rooms (fst (Dungeon_init g))). \<forall>c\<in>room_cells r.
        \<forall>c0\<in>room_cells (hd (dg_rooms (fst (Dungeon_init g)))).
          reachable (dg_tiles (fst (Dungeon_init g))) c0 c)
   \<and> (\<forall>i. Suc i < length (dg_rooms (fst (Dungeon_init g))) \<longrightarrow>
        L_joined (dg_tiles (fst (Dungeon_init g)))
          (rr_center (dg_rooms (fst (Dungeon_init g)) ! i))
          (rr_center (dg_rooms (fst (Dungeon_init g)) ! Suc i)))"
proof -
  let ?d = "fst (Dungeon_init g)"
  let ?t = "dg_tiles ?d" and ?rs = "dg_rooms ?d"
  have inv: "dungeon_inv ?d" by (rule Dungeon_init_inv)
  then have rooms: "\<And>r. r \<in> set ?rs \<Longrightarrow> room_ok r \<and> (\<forall>c\<in>room_cells r. is_floor ?t c)"
    and disj: "\<And>i j. i < length ?rs \<Longrightarrow> j < length ?rs \<Longrightarrow> i \<noteq> j
         \<Longrightarrow> \<not> intersects (?rs ! i) (?rs ! j)"
    and reach: "\<And>r. r \<in> set ?rs \<Longrightarrow> reachable ?t (rr_center (hd ?rs)) (rr_center r)"
    and joined: "\<And>i. Suc i < length ?rs
         \<Longrightarrow> L_joined ?t (rr_center (?rs ! i)) (rr_center (?rs ! Suc i))"
    unfolding dungeon_inv_def by blast+
  have "1 \<le> length ?rs"
    using generate_room_count [of all_walls g]
    unfolding Dungeon_init_def by blast
  then have ne: "?rs \<noteq> []" by auto
  then have hd_in: "hd ?rs \<in> set ?rs" by simp
  have conn: "reachable ?t c0 c"
    if r: "r \<in> set ?rs" and c: "c \<in> room_cells r" and c0: "c0 \<in> room_cells (hd ?rs)" for r c c0
  proof -
    have a: "reachable ?t c0 (rr_center (hd ?rs))"
      using room_connected [of "hd ?rs" ?t c0 "rr_center (hd ?rs)"] rooms [OF hd_in] c0
        room_ok_center by blast
    have b: "reachable ?t (rr_center r) c"
      using room_connected [of r ?t "rr_center r" c] rooms [OF r] c room_ok_center by blast
    from a reach [OF r] b show ?thesis using reachable_trans by blast
  qed
  from ne disj room_cells_disjoint conn joined show ?thesis by blast
qed

lemma sample_dungeon_rooms:
  "dg_rooms (fst (Dungeon_init two_room_rng))
   = [RectRoom_init 1 1 5 5, RectRoom_init 10 1 5 5]"
  by code_simp

theorem dungeon_disjoint_connected_witness:
  "dg_rooms (fst (Dungeon_init two_room_rng))
     = [RectRoom_init 1 1 5 5, RectRoom_init 10 1 5 5]
   \<and> \<not> intersects (RectRoom_init 1 1 5 5) (RectRoom_init 10 1 5 5)
   \<and> reachable (dg_tiles (fst (Dungeon_init two_room_rng))) (1, 1) (14, 5)
   \<and> L_joined (dg_tiles (fst (Dungeon_init two_room_rng))) (3, 3) (12, 3)"
proof -
  let ?g = two_room_rng
  note t = dungeon_disjoint_connected [of ?g]
  note e = sample_dungeon_rooms
  have a: "\<not> intersects (RectRoom_init 1 1 5 5) (RectRoom_init 10 1 5 5)"
    using t e by (simp add: intersects_def RectRoom_init_def)
  have "(14, 5) \<in> room_cells (RectRoom_init 10 1 5 5)"
    and "(1, 1) \<in> room_cells (hd [RectRoom_init 1 1 5 5, RectRoom_init 10 1 5 5])"
    by (simp_all add: room_cells_def RectRoom_init_def)
  then have b: "reachable (dg_tiles (fst (Dungeon_init ?g))) (1, 1) (14, 5)"
    using t unfolding e by (metis list.set_intros(1,2))
  have "L_joined (dg_tiles (fst (Dungeon_init ?g)))
      (rr_center ([RectRoom_init 1 1 5 5, RectRoom_init 10 1 5 5] ! 0))
      (rr_center ([RectRoom_init 1 1 5 5, RectRoom_init 10 1 5 5] ! Suc 0))"
    using t unfolding e by simp
  then have c: "L_joined (dg_tiles (fst (Dungeon_init ?g))) (3, 3) (12, 3)"
    by (simp add: RectRoom_init_def)
  from e a b c show ?thesis by simp
qed

subsection \<open>More facts on vectors\<close>

lemma vlength_x_axis: "vlength (x, 0) = \<bar>x\<bar>"
  by (simp add: vlength_def length_squared_def)

lemma normalize_x_axis: "0 < x \<Longrightarrow> normalize (x, 0) = Inr (1, 0)"
  by (simp add: normalize_def vlength_x_axis)

lemma normalize_neg_x_axis: "x < 0 \<Longrightarrow> normalize (x, 0) = Inr (- 1, 0)"
  by (simp add: normalize_def vlength_x_axis)

lemma length_squared_zero_iff: "length_squared a = 0 \<longleftrightarrow> a = (0, 0)"
  using vlength_zero_iff [of a] by (simp add: vlength_def)

lemma vsub_zero_iff: "vsub a b = (0, 0) \<longleftrightarrow> a = b"
  by (cases a, cases b) (simp add: vsub_def)

lemma vadd_smul_zero: "vadd a (smul v 0) = a"
  by (simp add: vadd_def smul_def)

lemma vsub_smul_zero: "vsub a (smul v 0) = a"
  by (simp add: vsub_def smul_def)

lemma key_move_none: "key_move (\<lambda>k. False) = (0, 0)"
  by (simp add: key_move_def)

subsection \<open>game.py: the state machine of the enemy\<close>

lemma Enemy_steer_state: "en_state (Enemy_steer e dt d) = en_state e"
  by (simp add: Enemy_steer_def Let_def)

lemma Enemy_reroll_state: "en_state (fst (obj (Enemy_reroll e g))) = en_state e"
  by (simp add: Enemy_reroll_def Let_def case_prod_beta split: sum.splits)

lemma Enemy_reroll_pos: "en_pos (fst (obj (Enemy_reroll e g))) = en_pos e"
  by (simp add: Enemy_reroll_def Let_def case_prod_beta split: sum.splits)

lemma Enemy_reroll_returns: "\<not> raises (Enemy_reroll e g)"
  by (simp add: Enemy_reroll_def Let_def case_prod_beta length_squared_pos_iff normalize_Inl_iff
      split: sum.splits)

lemma Enemy_update_state:
  "en_state (fst (obj (Enemy_update e dt pp g))) =
     (if vlength (vsub pp (en_pos e)) < 260 then ''chase''
      else if vlength (vsub pp (en_pos e)) > 360 then ''patrol''
      else en_state e)"
  using Enemy_reroll_state [of "e\<lparr>en_state := ''patrol'', en_change_timer := en_change_timer e - dt\<rparr>" g]
    Enemy_reroll_state [of "e\<lparr>en_change_timer := en_change_timer e - dt\<rparr>" g]
  by (auto simp add: Enemy_update_def Let_def Enemy_steer_state
      split: sum.splits outcome.splits prod.splits)

lemma Enemy_update_raises_iff: "raises (Enemy_update e dt pp g) \<longleftrightarrow> pp = en_pos e"
proof (cases "pp = en_pos e")
  case True
  then show ?thesis
    by (simp add: Enemy_update_def Let_def vsub_def vlength_def length_squared_def normalize_def)
next
  case False
  then have nz: "vsub pp (en_pos e) \<noteq> (0, 0)" by (simp add: vsub_zero_iff)
  have r1: "\<not> raises (Enemy_reroll e' g)" for e' by (rule Enemy_reroll_returns)
  show ?thesis using False nz
    Enemy_reroll_returns [of "e\<lparr>en_state := ''patrol'', en_change_timer := en_change_timer e - dt\<rparr>" g]
    Enemy_reroll_returns [of "e\<lparr>en_change_timer := en_change_timer e - dt\<rparr>" g]
    by (auto simp add: Enemy_update_def Let_def normalize_Inl_iff
        split: sum.splits outcome.splits prod.splits)
qed

text \<open>
  Claim C2. After \<^verbatim>\<open>Enemy.update\<close> (also when the call raises, since the state
  is assigned first): with the distance to the player below 260 the state is
  chase; an enemy in chase is in patrol afterwards only if the distance exceeds
  360, which is larger than 260; at distances from 260 to 360 the state is
  unchanged; beyond 360 it is patrol. The call returns whenever the two positions
  differ.
\<close>

theorem Enemy_update_hysteresis:
  "(vlength (vsub pp (en_pos e)) < 260 \<longrightarrow>
      en_state (fst (obj (Enemy_update e dt pp g))) = ''chase'')
   \<and> (en_state e = ''chase'' \<and> en_state (fst (obj (Enemy_update e dt pp g))) = ''patrol'' \<longrightarrow>
      vlength (vsub pp (en_pos e)) > 360)
   \<and> (260 \<le> vlength (vsub pp (en_pos e)) \<and> vlength (vsub pp (en_pos e)) \<le> 360 \<longrightarrow>
      en_state (fst (obj (Enemy_update e dt pp g))) = en_state e)
   \<and> (vlength (vsub pp (en_pos e)) > 360 \<longrightarrow>
      en_state (fst (obj (Enemy_update e dt pp g))) = ''patrol'')
   \<and> (pp \<noteq> en_pos e \<longrightarrow> \<not> raises (Enemy_update e dt pp g))"
  by (simp add: Enemy_update_state Enemy_update_raises_iff)

theorem Enemy_update_hysteresis_witness:
  "en_state (fst (obj (Enemy_update sample_enemy (1 / 60) (100, 0) zero_rng))) = ''chase''
   \<and> en_state (fst (obj (Enemy_update (sample_enemy\<lparr>en_state := ''chase''\<rparr>) (1 / 60)
        (300, 0) zero_rng))) = ''chase''
   \<and> en_state (fst (obj (Enemy_update (sample_enemy\<lparr>en_state := ''chase''\<rparr>) (1 / 60)
        (400, 0) zero_rng))) = ''patrol''
   \<and> \<not> raises (Enemy_update sample_enemy (1 / 60) (100, 0) zero_rng)"
  using Enemy_update_hysteresis [of "(100, 0)" sample_enemy "1 / 60" zero_rng]
    Enemy_update_hysteresis [of "(300, 0)" "sample_enemy\<lparr>en_state := ''chase''\<rparr>" "1 / 60" zero_rng]
    Enemy_update_hysteresis [of "(400, 0)" "sample_enemy\<lparr>en_state := ''chase''\<rparr>" "1 / 60" zero_rng]
  by (simp add: sample_enemy_def vsub_def vlength_x_axis)

subsection \<open>Normalizing a zero vector\<close>

lemma Enemy_update_coincident:
  "Enemy_update e dt (en_pos e) g = Raised ValueError (e\<lparr>en_state := ''chase''\<rparr>, g)"
  by (simp add: Enemy_update_def Let_def vsub_def vlength_def length_squared_def normalize_def)

lemma Player_shoot_returns: "\<not> raises (Player_shoot p target bullets particles g)"
  by (simp add: Player_shoot_def Let_def case_prod_beta normalize_Inl_iff length_squared_zero_iff
      split: sum.splits)

lemma FEnemy_update_coincident:
  "fe_kind e = 0 \<Longrightarrow> 0 < fe_aggro e \<Longrightarrow> fpl_pos pl = fe_pos e \<Longrightarrow>
   FEnemy_update e dt pl projs = Raised ValueError (e, projs)"
  by (simp add: FEnemy_update_def Let_def vsub_def vlength_def length_squared_def normalize_def)

lemma fire_coincident:
  "ag_state gm = ''playing'' \<Longrightarrow> 0 < ap_ammo (ag_player gm) \<Longrightarrow> \<not> ap_reloading (ag_player gm) \<Longrightarrow>
   fire gm True (ap_pos (ag_player gm)) g = Raised ValueError (gm, g)"
  by (simp add: fire_def Let_def ABullet_init_def vsub_def vlength_def length_squared_def normalize_def)

text \<open>
  Claim C5 does not hold of the code. \<^verbatim>\<open>Enemy.update\<close> of game.py called with
  the player's position equal to the enemy's sets the state to chase and then
  raises ValueError from \<^verbatim>\<open>normalize()\<close>; no default direction is substituted.
  \<^verbatim>\<open>Player.shoot\<close> of the same file has the guard and never raises. The lemmas
  above show the same unguarded call in \<^verbatim>\<open>Enemy.update\<close> of game3.py and in the
  firing block of game2mod.py.
\<close>

theorem Enemy_update_coincident_raises:
  "Enemy_update e dt (en_pos e) g = Raised ValueError (e\<lparr>en_state := ''chase''\<rparr>, g)
   \<and> Enemy_update sample_enemy (1 / 60) (0, 0) zero_rng
        = Raised ValueError (sample_enemy\<lparr>en_state := ''chase''\<rparr>, zero_rng)
   \<and> \<not> raises (Player_shoot p (pl_pos p) bullets particles g')"
  using Enemy_update_coincident [of e dt g] Enemy_update_coincident [of sample_enemy "1 / 60" zero_rng]
  by (simp add: Player_shoot_returns sample_enemy_def)

subsection \<open>Updates with dt = 0\<close>

lemma Player_update_dt0: "pl_pos (obj (Player_update p 0 ks)) = pl_pos p"
  by (simp add: Player_update_def Let_def vadd_smul_zero split: sum.splits)

lemma Enemy_steer_dt0: "en_pos (Enemy_steer e 0 d) = en_pos e"
  by (simp add: Enemy_steer_def Let_def vadd_smul_zero)

lemma Enemy_update_dt0: "en_pos (fst (obj (Enemy_update e 0 pp g))) = en_pos e"
  using Enemy_reroll_pos [of "e\<lparr>en_state := ''patrol''\<rparr>" g] Enemy_reroll_pos [of e g]
  by (auto simp add: Enemy_update_def Let_def Enemy_steer_dt0
      split: sum.splits outcome.splits prod.splits)

lemma RPlayer_update_dt0: "rp_pos (RPlayer_update r 0) = rp_pos r"
  by (simp add: RPlayer_update_def Let_def vadd_smul_zero)

lemma APlayer_update_dt0: "ap_pos (obj (APlayer_update a 0 ks)) = ap_pos a"
  by (simp add: APlayer_update_def Let_def vadd_smul_zero split: sum.splits)

lemma AEnemy_update_dt0: "ae_pos (obj (AEnemy_update ae 0 a)) = ae_pos ae"
  by (simp add: AEnemy_update_def Let_def vadd_smul_zero split: sum.splits)

lemma FPlayer_update_dt0:
  "fpl_pos (fst (obj (FPlayer_update fp 0 ks projs parts g))) = fpl_pos fp"
  by (simp add: FPlayer_update_def Let_def vadd_smul_zero case_prod_beta split: sum.splits)

lemma FEnemy_update_dt0: "fe_pos (fst (obj (FEnemy_update fe 0 fp projs))) = fe_pos fe"
  by (simp add: FEnemy_update_def Let_def vadd_smul_zero vsub_smul_zero split: sum.splits)

text \<open>
  Claim C8. With dt = 0 every update leaves the position of its entity as it
  was, whatever the state, the velocity, the keys and the generator: player,
  enemy, bullet and particle of game.py; the player of game2.py (whose particle
  is that of game.py); player, enemy, bullet and particle of game2mod.py; player,
  enemy, projectile and particle of game3.py. Where an update raises, the
  position at the raise is the old one as well.
\<close>

theorem update_zero_dt_keeps_position:
  "pl_pos (obj (Player_update p 0 ks)) = pl_pos p
   \<and> en_pos (fst (obj (Enemy_update e 0 pp g))) = en_pos e
   \<and> b_pos (Bullet_update b 0) = b_pos b
   \<and> pt_pos (Particle_update q 0) = pt_pos q
   \<and> rp_pos (RPlayer_update r 0) = rp_pos r
   \<and> ap_pos (obj (APlayer_update a 0 ks)) = ap_pos a
   \<and> ae_pos (obj (AEnemy_update ae 0 a)) = ae_pos ae
   \<and> ab_pos (ABullet_update ab 0) = ab_pos ab
   \<and> pt_pos (Particle_update_arena q 0) = pt_pos q
   \<and> fpl_pos (fst (obj (FPlayer_update fp 0 ks projs parts g))) = fpl_pos fp
   \<and> fe_pos (fst (obj (FEnemy_update fe 0 fp projs))) = fe_pos fe
   \<and> pr_pos (Projectile_update pr 0) = pr_pos pr
   \<and> fp_pos (FParticle_update fq 0) = fp_pos fq"
  by (simp add: Player_update_dt0 Enemy_update_dt0 RPlayer_update_dt0 APlayer_update_dt0
      AEnemy_update_dt0 FPlayer_update_dt0 FEnemy_update_dt0 Bullet_update_def Particle_update_def
      ABullet_update_def Particle_update_arena_def Projectile_update_def FParticle_update_def
      Let_def vadd_smul_zero)

subsection \<open>Projectiles against targets\<close>

lemma fold_remove1_notin:
  "x \<notin> set ys \<Longrightarrow> fold remove1 ys (x # zs) = x # fold remove1 ys zs"
  by (induction ys arbitrary: zs) auto

lemma fold_remove1_filter: "fold remove1 (filter P xs) xs = filter (\<lambda>x. \<not> P x) xs"
  by (induction xs) (simp_all add: fold_remove1_notin)

lemma bullet_hits_general:
  "snd (bullet_hits dmg copy e bullets) =
     fold remove1 (filter (\<lambda>b. vlength (vsub (b_pos b) (en_pos e)) < en_radius e + b_radius b) copy) bullets
   \<and> en_health (fst (bullet_hits dmg copy e bullets)) = en_health e - 20 * dmg *
       real (length (filter (\<lambda>b. vlength (vsub (b_pos b) (en_pos e)) < en_radius e + b_radius b) copy))"
proof (induction copy arbitrary: e bullets)
  case Nil
  then show ?case by simp
next
  case (Cons b copy)
  show ?case
  proof (cases "vlength (vsub (b_pos b) (en_pos e)) < en_radius e + b_radius b")
    case True
    then show ?thesis
      using Cons.IH [of "e\<lparr>en_health := en_health e - 20 * dmg\<rparr>" "remove1 b bullets"]
      by (simp add: algebra_simps)
  next
    case False
    then show ?thesis using Cons.IH [of e bullets] by simp
  qed
qed

text \<open>
  In game.py the loop for one enemy removes every bullet in range from the list,
  so the copy taken for the next enemy no longer holds it: a bullet hits once.
\<close>

lemma bullet_hits_single_hit:
  "snd (bullet_hits dmg bullets e bullets) =
     filter (\<lambda>b. \<not> vlength (vsub (b_pos b) (en_pos e)) < en_radius e + b_radius b) bullets"
  by (simp add: bullet_hits_general fold_remove1_filter)

(* C2 / C5 / C8 *)

lemma shot_player_eq:
  "FPlayer_shoot (FPlayer_init (0, 0) False) (100, 0) =
     Returned ((FPlayer_init (0, 0) False)\<lparr>fpl_projectiles :=
        [Projectile_init (20, 0) (520, 0) OwnerPlayer 18 2]\<rparr>)"
  by (simp add: FPlayer_shoot_def FPlayer_init_def py_index_def Let_def vsub_def length_squared_def
      normalize_x_axis vadd_def smul_def)

lemma hit_enemies_enemies:
  "fst (hit_enemies pr es particles g removed) =
     map (\<lambda>e. if vlength (vsub (pr_pos pr) (fe_pos e)) < fe_radius e + 6
               then e\<lparr>fe_hp := fe_hp e - pr_dmg pr\<rparr> else e) es"
  by (induction es arbitrary: particles g removed) (simp_all add: case_prod_beta)

lemma hit_enemies_removed:
  "snd (snd (snd (hit_enemies pr es particles g removed))) \<longleftrightarrow>
     removed \<or> list_ex (\<lambda>e. vlength (vsub (pr_pos pr) (fe_pos e)) < fe_radius e + 6) es"
  by (induction es arbitrary: particles g removed) (simp_all add: case_prod_beta)

lemma projectile_phase_enemies_single:
  "pr_life (Projectile_update pr dt) > 0 \<Longrightarrow> pr_owner pr = OwnerPlayer \<Longrightarrow>
   fg_enemies (fst (projectile_phase dt [pr] kept gm g)) =
     map (\<lambda>e. if vlength (vsub (pr_pos (Projectile_update pr dt)) (fe_pos e)) < fe_radius e + 6
               then e\<lparr>fe_hp := fe_hp e - pr_dmg pr\<rparr> else e) (fg_enemies gm)"
proof -
  assume a: "pr_life (Projectile_update pr dt) > 0" "pr_owner pr = OwnerPlayer"
  have o: "pr_owner (Projectile_update pr dt) = OwnerPlayer" "pr_dmg (Projectile_update pr dt) = pr_dmg pr"
    using a by (simp_all add: Projectile_update_def Let_def)
  obtain es ps g1 r where h: "hit_enemies (Projectile_update pr dt) (fg_enemies gm) (fg_particles gm) g False = (es, ps, g1, r)"
    by (metis prod_cases4)
  have "es = fst (hit_enemies (Projectile_update pr dt) (fg_enemies gm) (fg_particles gm) g False)"
    using h by simp
  then have es: "es = map (\<lambda>e. if vlength (vsub (pr_pos (Projectile_update pr dt)) (fe_pos e)) < fe_radius e + 6
               then e\<lparr>fe_hp := fe_hp e - pr_dmg pr\<rparr> else e) (fg_enemies gm)"
    by (simp add: hit_enemies_enemies o)
  show ?thesis using a o h es by (simp add: Let_def)
qed

lemma projectile_phase_removed_single:
  "pr_life (Projectile_update pr dt) > 0 \<Longrightarrow> pr_owner pr = OwnerPlayer \<Longrightarrow>
   fg_projectiles (fst (projectile_phase dt [pr] kept gm g)) =
     (if list_ex (\<lambda>e. vlength (vsub (pr_pos (Projectile_update pr dt)) (fe_pos e)) < fe_radius e + 6)
           (fg_enemies gm)
      then kept else kept @ [Projectile_update pr dt])"
proof -
  assume a: "pr_life (Projectile_update pr dt) > 0" "pr_owner pr = OwnerPlayer"
  have o: "pr_owner (Projectile_update pr dt) = OwnerPlayer"
    using a by (simp_all add: Projectile_update_def Let_def)
  obtain es ps g1 r where h: "hit_enemies (Projectile_update pr dt) (fg_enemies gm) (fg_particles gm) g False = (es, ps, g1, r)"
    by (metis prod_cases4)
  have "r = snd (snd (snd (hit_enemies (Projectile_update pr dt) (fg_enemies gm) (fg_particles gm) g False)))"
    using h by simp
  then have r: "r \<longleftrightarrow> list_ex (\<lambda>e. vlength (vsub (pr_pos (Projectile_update pr dt)) (fe_pos e)) < fe_radius e + 6)
           (fg_enemies gm)"
    by (simp add: hit_enemies_removed)
  show ?thesis using a o h r by (simp add: Let_def)
qed

text \<open>
  In game3.py the loop over the enemies has no \<^verbatim>\<open>break\<close>: one projectile of
  the player in the game's list takes its damage from every enemy in range in
  the same tick.
\<close>

lemma projectile_damages_two_enemies:
  "map fe_hp (fg_enemies pierce_state) = [40, 40]
   \<and> map fe_hp (fg_enemies (fst (projectile_phase (1 / 60) (fg_projectiles pierce_state) []
        pierce_state g))) = [22, 22]
   \<and> fg_projectiles (fst (projectile_phase (1 / 60) (fg_projectiles pierce_state) []
        pierce_state g)) = []"
proof -
  let ?pr = "Projectile_init (0, 0) (0, 0) OwnerPlayer 18 1"
  have live: "pr_life (Projectile_update ?pr (1 / 60)) > 0" and own: "pr_owner ?pr = OwnerPlayer"
    by (simp_all add: Projectile_init_def Projectile_update_def Let_def)
  have "fg_enemies (fst (projectile_phase (1 / 60) [?pr] [] pierce_state g)) =
     map (\<lambda>e. if vlength (vsub (pr_pos (Projectile_update ?pr (1 / 60))) (fe_pos e)) < fe_radius e + 6
               then e\<lparr>fe_hp := fe_hp e - pr_dmg ?pr\<rparr> else e) (fg_enemies pierce_state)"
    using live own by (rule projectile_phase_enemies_single)
  then have a: "map fe_hp (fg_enemies (fst (projectile_phase (1 / 60) [?pr] [] pierce_state g)))
      = [22, 22]"
    by (simp add: pierce_state_def Projectile_init_def Projectile_update_def
        FEnemy_init_def vadd_def vsub_def smul_def vlength_x_axis Let_def)
  have "fg_projectiles (fst (projectile_phase (1 / 60) [?pr] [] pierce_state g)) = []"
    using live own projectile_phase_removed_single [of ?pr "1 / 60" "[]" pierce_state g]
    by (simp add: pierce_state_def Projectile_init_def Projectile_update_def
        FEnemy_init_def vadd_def vsub_def smul_def vlength_x_axis Let_def)
  then show ?thesis using a by (simp add: pierce_state_def FEnemy_init_def)
qed

lemma physics_shot_state:
  "physics shot_state (1 / 60) (\<lambda>k. False) g =
     Returned (shot_state\<lparr>
        fg_player := shot_player\<lparr>fpl_projectiles :=
          [Projectile_init (20 + 520 / 60, 0) (520, 0) OwnerPlayer 18 (2 - 1 / 60)]\<rparr>,
        fg_enemies := [(FEnemy_init (30, 0) 0)\<lparr>fe_pos := (28, 0)\<rparr>]\<rparr>, g)"
  unfolding shot_state_def shot_player_def shot_player_eq
  by (simp add: physics_def FPlayer_update_def key_move_none length_squared_def Let_def
      FPlayer_init_def Projectile_init_def Projectile_update_def clamp_def vadd_def vsub_def smul_def
      FEnemy_update_def FEnemy_init_def vlength_x_axis normalize_neg_x_axis)

text \<open>
  Claim C1 does not hold of game3.py. A projectile the player fires stays in the
  player's own list until its life runs out, and \<^verbatim>\<open>physics\<close> tests only the
  game's list against the enemies. In \<open>shot_state\<close> the fresh pistol projectile at
  (20, 0) is within \<open>radius + 6\<close> of the enemy at (30, 0), before and after the
  tick; after \<^verbatim>\<open>physics\<close> with dt = 1/60 the enemy still has its 40 hit points
  and the projectile is still live in the player's list.
\<close>

theorem physics_skips_player_projectiles:
  "fpl_projectiles (fg_player shot_state) = [Projectile_init (20, 0) (520, 0) OwnerPlayer 18 2]
   \<and> map fe_pos (fg_enemies shot_state) = [(30, 0)]
   \<and> map fe_hp (fg_enemies shot_state) = [40]
   \<and> vlength (vsub (20, 0) (30, 0)) < fe_radius (FEnemy_init (30, 0) 0) + 6
   \<and> \<not> raises (physics shot_state (1 / 60) (\<lambda>k. False) g)
   \<and> map fe_pos (fg_enemies (fst (obj (physics shot_state (1 / 60) (\<lambda>k. False) g)))) = [(28, 0)]
   \<and> map fe_hp (fg_enemies (fst (obj (physics shot_state (1 / 60) (\<lambda>k. False) g)))) = [40]
   \<and> fpl_projectiles (fg_player (fst (obj (physics shot_state (1 / 60) (\<lambda>k. False) g))))
       = [Projectile_init (20 + 520 / 60, 0) (520, 0) OwnerPlayer 18 (2 - 1 / 60)]
   \<and> fg_projectiles (fst (obj (physics shot_state (1 / 60) (\<lambda>k. False) g))) = []
   \<and> vlength (vsub (20 + 520 / 60, 0) (28, 0)) < fe_radius (FEnemy_init (30, 0) 0) + 6"
proof -
  have before: "fpl_projectiles (fg_player shot_state)
      = [Projectile_init (20, 0) (520, 0) OwnerPlayer 18 2]
    \<and> map fe_pos (fg_enemies shot_state) = [(30, 0)]
    \<and> map fe_hp (fg_enemies shot_state) = [40]"
    by (simp add: shot_state_def shot_player_def shot_player_eq FEnemy_init_def)
  have near: "vlength (vsub (20, 0) (30, 0)) < fe_radius (FEnemy_init (30, 0) 0) + 6
    \<and> vlength (vsub (20 + 520 / 60, 0) (28, 0)) < fe_radius (FEnemy_init (30, 0) 0) + 6"
    by (simp add: vsub_def vlength_x_axis FEnemy_init_def)
  have after: "\<not> raises (physics shot_state (1 / 60) (\<lambda>k. False) g)
    \<and> map fe_pos (fg_enemies (fst (obj (physics shot_state (1 / 60) (\<lambda>k. False) g)))) = [(28, 0)]
    \<and> map fe_hp (fg_enemies (fst (obj (physics shot_state (1 / 60) (\<lambda>k. False) g)))) = [40]
    \<and> fpl_projectiles (fg_player (fst (obj (physics shot_state (1 / 60) (\<lambda>k. False) g))))
       = [Projectile_init (20 + 520 / 60, 0) (520, 0) OwnerPlayer 18 (2 - 1 / 60)]
    \<and> fg_projectiles (fst (obj (physics shot_state (1 / 60) (\<lambda>k. False) g))) = []"
    unfolding physics_shot_state by (simp add: shot_state_def FEnemy_init_def)
  from before near after show ?thesis by blast
qed

end
